theory Spec2Isabelle
  imports Main "HOL-Library.Sublist"
begin

section \<open>Python text primitives used by the scripts\<close>

text \<open>
  Text is a list of characters. An Isabelle character is one of the code points 0..255,
  so the model covers Latin-1 text and agrees with Python on every ASCII script.
  The functions below are the \<^verbatim>\<open>str\<close> methods the scripts call:
  \<^verbatim>\<open>strip\<close>, \<^verbatim>\<open>split\<close>, \<^verbatim>\<open>join\<close>, \<^verbatim>\<open>upper\<close>,
  \<^verbatim>\<open>startswith\<close>, \<^verbatim>\<open>ljust\<close> and slicing \<^verbatim>\<open>s[:n]\<close>.
\<close>

definition isspace :: "char \<Rightarrow> bool" where
  \<comment> \<open>\<^verbatim>\<open>str.isspace\<close> on one code point below 256: TAB, LF, VT, FF, CR, the four
     separators FS..US, SPACE, NEL and NBSP.\<close>
  "isspace c =
     (let n = (of_char c :: nat)
      in (9 \<le> n \<and> n \<le> 13) \<or> (28 \<le> n \<and> n \<le> 32) \<or> n = 133 \<or> n = 160)"

definition lstrip :: "string \<Rightarrow> string" where
  "lstrip s = dropWhile isspace s"

definition rstrip :: "string \<Rightarrow> string" where
  "rstrip s = rev (dropWhile isspace (rev s))"

definition strip :: "string \<Rightarrow> string" where
  "strip s = rstrip (lstrip s)"

fun split_on :: "char \<Rightarrow> string \<Rightarrow> string list" where
  \<comment> \<open>\<^verbatim>\<open>s.split(c)\<close> for a one-character separator: every occurrence of the
     separator ends a fragment, so the result is never empty and \<^verbatim>\<open>''.split(';')\<close>
     is \<^verbatim>\<open>['']\<close>.\<close>
  "split_on c [] = [[]]"
| "split_on c (x # xs) =
     (if x = c then [] # split_on c xs
      else (case split_on c xs of
              [] \<Rightarrow> [[x]]
            | w # ws \<Rightarrow> (x # w) # ws))"

fun join :: "string \<Rightarrow> string list \<Rightarrow> string" where
  \<comment> \<open>\<^verbatim>\<open>sep.join(xs)\<close>\<close>
  "join sep [] = []"
| "join sep [x] = x"
| "join sep (x # y # ys) = x @ sep @ join sep (y # ys)"

section \<open>Splitting a script into statements (create_schema.py, execute_sql)\<close>

definition statements :: "string \<Rightarrow> string list" where
  \<comment> \<open>\<^verbatim>\<open>[s.strip() for s in sql.split(';') if s.strip()]\<close>: the filter of the
     comprehension runs on the raw fragment, the trimmed fragment is what is kept.\<close>
  "statements sql = map strip (filter (\<lambda>s. strip s \<noteq> []) (split_on (CHR '';'') sql))"

definition spec_statements :: "string \<Rightarrow> string list" where
  \<comment> \<open>The specification's wording: split on the delimiter, trim every fragment, then
     discard the fragments that are empty after trimming.\<close>
  "spec_statements sql = filter (\<lambda>f. f \<noteq> []) (map strip (split_on (CHR '';'') sql))"

section \<open>Further text primitives and Python values\<close>

definition upper_char :: "char \<Rightarrow> char" where
  \<comment> \<open>\<^verbatim>\<open>str.upper\<close> on one character: the ASCII letters are mapped. Python maps other
     Latin-1 letters too, but never to an ASCII letter other than \<open>S\<close> (from the
     sharp s, as \<open>SS\<close>), so the test for the prefix \<^verbatim>\<open>SELECT\<close> below cannot tell.\<close>
  "upper_char c =
     (case map_of (zip ''abcdefghijklmnopqrstuvwxyz'' ''ABCDEFGHIJKLMNOPQRSTUVWXYZ'') c of
        Some u \<Rightarrow> u
      | None \<Rightarrow> c)"

definition upper :: "string \<Rightarrow> string" where
  "upper s = map upper_char s"

definition startswith :: "string \<Rightarrow> string \<Rightarrow> bool" where
  \<comment> \<open>\<^verbatim>\<open>s.startswith(p)\<close>\<close>
  "startswith s p = (take (length p) s = p)"

definition ljust :: "string \<Rightarrow> nat \<Rightarrow> string" where
  \<comment> \<open>\<^verbatim>\<open>s.ljust(w)\<close>: pads with spaces on the right, never truncates.\<close>
  "ljust s w = s @ replicate (w - length s) (CHR '' '')"

definition newline :: char where
  "newline = CHR 0x0A"

definition apostrophe :: char where
  "apostrophe = CHR 0x27"

definition digit :: "nat \<Rightarrow> char" where
  "digit d = ''0123456789'' ! d"

function show_nat :: "nat \<Rightarrow> string" where
  \<comment> \<open>the decimal numeral of a natural number, as \<^verbatim>\<open>str\<close> and f-strings print it\<close>
  "show_nat n = (if n < 10 then [digit n] else show_nat (n div 10) @ [digit (n mod 10)])"
  by pat_completeness auto
termination
  by (relation "measure (\<lambda>n. n)") auto

declare show_nat.simps [simp del]

definition str_int :: "int \<Rightarrow> string" where
  "str_int i = (if i < 0 then CHR ''-'' # show_nat (nat (- i)) else show_nat (nat i))"

datatype pyval =
    PNone
  | PBool bool
  | PInt int
  | PStr string
  | PObj string  \<comment> \<open>any other value (a timestamp, a decimal), given by its \<^verbatim>\<open>str()\<close> form\<close>

fun str :: "pyval \<Rightarrow> string" where
  "str PNone = ''None''"
| "str (PBool b) = (if b then ''True'' else ''False'')"
| "str (PInt i) = str_int i"
| "str (PStr s) = s"
| "str (PObj s) = s"

text \<open>
  A result row is a dictionary from column names to values. Dictionaries keep insertion
  order, which fixes the order of the table's columns, so a row is an association list;
  the keys of a Python dictionary are distinct.
\<close>

type_synonym row = "(string \<times> pyval) list"

definition keys :: "row \<Rightarrow> string list" where
  "keys r = map fst r"

definition get :: "row \<Rightarrow> string \<Rightarrow> pyval \<Rightarrow> pyval" where
  \<comment> \<open>\<^verbatim>\<open>row.get(k, d)\<close>\<close>
  "get r k d = (case map_of r k of None \<Rightarrow> d | Some v \<Rightarrow> v)"

section \<open>Console output\<close>

text \<open>
  Everything the scripts write goes to standard output. A line written by one of the
  \<^verbatim>\<open>log_*\<close> helpers is kept with its level (the helper prefixes the message with a
  coloured tag), a bare \<^verbatim>\<open>print\<close> with its text, and the JSON dump of a result set
  with the rows that \<^verbatim>\<open>json.dumps\<close> is given.
\<close>

datatype out_line =
    Info string
  | Warn string
  | Error string
  | Success string
  | Print string
  | PrintJson "row list"
  | PrintHelp

section \<open>Rendering a result set (read_database.py, print_results)\<close>

definition cell :: "row \<Rightarrow> string \<Rightarrow> string" where
  \<comment> \<open>\<^verbatim>\<open>str(row.get(h, ''))\<close>\<close>
  "cell r h = str (get r h (PStr []))"

definition width_of :: "(string \<rightharpoonup> nat) \<Rightarrow> string \<Rightarrow> nat" where
  \<comment> \<open>\<^verbatim>\<open>col_widths[h]\<close>. Every header is a key of \<^verbatim>\<open>col_widths\<close> from its
     construction on, so the lookup never raises.\<close>
  "width_of m h = (case m h of Some w \<Rightarrow> w | None \<Rightarrow> 0)"

definition init_widths :: "string list \<Rightarrow> (string \<rightharpoonup> nat)" where
  \<comment> \<open>\<^verbatim>\<open>{h: len(h) for h in headers}\<close>\<close>
  "init_widths headers = fold (\<lambda>h m. m(h \<mapsto> length h)) headers Map.empty"

definition widen :: "row \<Rightarrow> string \<Rightarrow> (string \<rightharpoonup> nat) \<Rightarrow> (string \<rightharpoonup> nat)" where
  \<comment> \<open>the body of the inner loop:
     \<^verbatim>\<open>col_widths[header] = max(col_widths[header], len(str(row.get(header, ''))))\<close>\<close>
  "widen r h m = m(h \<mapsto> max (width_of m h) (length (cell r h)))"

definition col_widths :: "string list \<Rightarrow> row list \<Rightarrow> (string \<rightharpoonup> nat)" where
  \<comment> \<open>the two nested loops over the rows and the headers\<close>
  "col_widths headers results =
     fold (\<lambda>r m. fold (widen r) headers m) results (init_widths headers)"

definition header_line :: "string list \<Rightarrow> (string \<rightharpoonup> nat) \<Rightarrow> string" where
  "header_line headers cw = join '' | '' (map (\<lambda>h. ljust h (width_of cw h)) headers)"

definition row_line :: "string list \<Rightarrow> (string \<rightharpoonup> nat) \<Rightarrow> row \<Rightarrow> string" where
  "row_line headers cw r = join '' | '' (map (\<lambda>h. ljust (cell r h) (width_of cw h)) headers)"

definition print_results :: "row list \<Rightarrow> string \<Rightarrow> out_line list" where
  "print_results results format_type =
     (case results of
        [] \<Rightarrow> [Warn ''No results returned'']
      | first # _ \<Rightarrow>
          if format_type = ''json'' then [PrintJson results]
          else
            (let headers = keys first;
                 cw = col_widths headers results
             in [Print (newline # header_line headers cw),
                 Print (replicate (length (header_line headers cw)) (CHR ''-''))]
                @ map (\<lambda>r. Print (row_line headers cw r)) results
                @ [Print ([newline] @ show_nat (length results) @ '' row(s) returned'' @ [newline])]))"

definition spec_width :: "row list \<Rightarrow> string \<Rightarrow> nat" where
  \<comment> \<open>The specification's wording: the maximum of the header's length and the string
     length of every cell of the column.\<close>
  "spec_width results h = Max (insert (length h) ((\<lambda>r. length (cell r h)) ` set results))"

section \<open>The database driver\<close>

text \<open>
  The drivers (psycopg2, mysql.connector) are libraries outside the repository. The
  scripts only call them, so a driver is a parameter of the model: given the calls made
  so far and the call being made, it says whether that call raises (and with which error
  text), and which rows \<^verbatim>\<open>fetchall\<close> returns. Every call is recorded, in order.
\<close>

record config =
  db_name :: string
  db_user :: string
  db_password :: string
  db_host :: string
  db_port :: string

datatype db_type = Postgres | MySQL

datatype call =
    Connect db_type config
  | OpenCursor
  | Execute string
  | Fetchall
  | Commit
  | Rollback
  | CloseCursor
  | CloseConnection

record driver =
  raises :: "call list \<Rightarrow> call \<Rightarrow> string option"
  fetched :: "call list \<Rightarrow> row list"

datatype exn =
    SystemExit nat    \<comment> \<open>\<^verbatim>\<open>sys.exit(n)\<close>; not caught by \<^verbatim>\<open>except Exception\<close>\<close>
  | Exception string  \<comment> \<open>any other exception, with its \<^verbatim>\<open>str()\<close>\<close>

datatype handle = Handle

record state =
  connection :: "handle option"  \<comment> \<open>\<^verbatim>\<open>self.connection\<close>\<close>
  cursor :: "handle option"      \<comment> \<open>\<^verbatim>\<open>self.cursor\<close>\<close>
  calls :: "call list"
  console :: "out_line list"

definition invoke :: "driver \<Rightarrow> call \<Rightarrow> state \<Rightarrow> string option \<times> state" where
  "invoke drv c s = (raises drv (calls s) c, s\<lparr>calls := calls s @ [c]\<rparr>)"

definition emit :: "out_line \<Rightarrow> state \<Rightarrow> state" where
  "emit out s = s\<lparr>console := console s @ [out]\<rparr>"

definition log_info :: "string \<Rightarrow> state \<Rightarrow> state" where
  "log_info message = emit (Info message)"

definition log_warn :: "string \<Rightarrow> state \<Rightarrow> state" where
  "log_warn message = emit (Warn message)"

definition log_error :: "string \<Rightarrow> state \<Rightarrow> state" where
  "log_error message = emit (Error message)"

definition log_success :: "string \<Rightarrow> state \<Rightarrow> state" where
  "log_success message = emit (Success message)"

section \<open>Executing a script (create_schema.py, SchemaCreator.execute_sql)\<close>

fun run_statements :: "driver \<Rightarrow> string list \<Rightarrow> state \<Rightarrow> string option \<times> state" where
  \<comment> \<open>the \<^verbatim>\<open>for\<close> loop of \<^verbatim>\<open>execute_sql\<close>; the result is the error text of the
     statement that raised, if one did\<close>
  "run_statements drv [] s = (None, s)"
| "run_statements drv (statement # rest) s =
     (if statement \<noteq> [] then
        (case invoke drv (Execute statement)
                (log_info (''Executing: '' @ take 80 statement @ ''...'') s) of
           (Some e, s1) \<Rightarrow> (Some e, s1)
         | (None, s1) \<Rightarrow> run_statements drv rest s1)
      else run_statements drv rest s)"

definition on_failure :: "driver \<Rightarrow> string \<Rightarrow> state \<Rightarrow> (exn + bool) \<times> state" where
  \<comment> \<open>the \<^verbatim>\<open>except Exception as e\<close> block of \<^verbatim>\<open>execute_sql\<close>; an exception of
     \<^verbatim>\<open>rollback\<close> itself is not caught\<close>
  "on_failure drv e s =
     (case invoke drv Rollback (log_error (''Failed to execute SQL: '' @ e) s) of
        (Some e', s1) \<Rightarrow> (Inl (Exception e'), s1)
      | (None, s1) \<Rightarrow> (Inr False, s1))"

definition execute_sql :: "driver \<Rightarrow> string \<Rightarrow> state \<Rightarrow> (exn + bool) \<times> state" where
  \<comment> \<open>called by \<^verbatim>\<open>main\<close> after \<^verbatim>\<open>connect\<close> has returned, so the cursor and the
     connection are set\<close>
  "execute_sql drv sql s =
     (case run_statements drv (statements sql) s of
        (Some e, s1) \<Rightarrow> on_failure drv e s1
      | (None, s1) \<Rightarrow>
          (case invoke drv Commit s1 of
             (Some e, s2) \<Rightarrow> on_failure drv e s2
           | (None, s2) \<Rightarrow> (Inr True, log_success ''Schema created successfully!'' s2)))"

definition executed :: "call list \<Rightarrow> string list" where
  \<comment> \<open>the statements passed to \<^verbatim>\<open>cursor.execute\<close>, in order\<close>
  "executed cs = concat (map (\<lambda>c. case c of Execute q \<Rightarrow> [q] | _ \<Rightarrow> []) cs)"

definition count_call :: "call \<Rightarrow> call list \<Rightarrow> nat" where
  "count_call c cs = length (filter (\<lambda>x. x = c) cs)"

section \<open>Running a query (read_database.py, execute_query)\<close>

definition is_select :: "string \<Rightarrow> bool" where
  \<comment> \<open>\<^verbatim>\<open>query.strip().upper().startswith('SELECT')\<close>\<close>
  "is_select query = startswith (upper (strip query)) ''SELECT''"

definition query_failed :: "string \<Rightarrow> state \<Rightarrow> row list \<times> state" where
  \<comment> \<open>the \<^verbatim>\<open>except Exception as e\<close> block of \<^verbatim>\<open>execute_query\<close>\<close>
  "query_failed e s = ([], log_error (''Query execution failed: '' @ e) s)"

definition PostgresReader_execute_query :: "driver \<Rightarrow> string \<Rightarrow> state \<Rightarrow> row list \<times> state" where
  "PostgresReader_execute_query drv query s =
     (case invoke drv (Execute query) s of
        (Some e, s1) \<Rightarrow> query_failed e s1
      | (None, s1) \<Rightarrow>
          if is_select query then
            (case invoke drv Fetchall s1 of
               (Some e, s2) \<Rightarrow> query_failed e s2
             | (None, s2) \<Rightarrow> (map (\<lambda>row. row) (fetched drv (calls s1)), s2))
          else
            (case invoke drv Commit s1 of
               (Some e, s2) \<Rightarrow> query_failed e s2
             | (None, s2) \<Rightarrow> ([], s2)))"

definition MySQLReader_execute_query :: "driver \<Rightarrow> string \<Rightarrow> state \<Rightarrow> row list \<times> state" where
  "MySQLReader_execute_query drv query s =
     (case invoke drv (Execute query) s of
        (Some e, s1) \<Rightarrow> query_failed e s1
      | (None, s1) \<Rightarrow>
          if is_select query then
            (case invoke drv Fetchall s1 of
               (Some e, s2) \<Rightarrow> query_failed e s2
             | (None, s2) \<Rightarrow> (fetched drv (calls s1), s2))
          else
            (case invoke drv Commit s1 of
               (Some e, s2) \<Rightarrow> query_failed e s2
             | (None, s2) \<Rightarrow> ([], s2)))"

definition execute_query :: "db_type \<Rightarrow> driver \<Rightarrow> string \<Rightarrow> state \<Rightarrow> row list \<times> state" where
  \<comment> \<open>the method of the reader that \<^verbatim>\<open>main\<close> created for \<^verbatim>\<open>--type\<close>\<close>
  "execute_query t =
     (case t of Postgres \<Rightarrow> PostgresReader_execute_query | MySQL \<Rightarrow> MySQLReader_execute_query)"

section \<open>Connecting and closing\<close>

definition db_label :: "db_type \<Rightarrow> string" where
  "db_label t = (case t of Postgres \<Rightarrow> ''PostgreSQL'' | MySQL \<Rightarrow> ''MySQL'')"

definition connect :: "db_type \<Rightarrow> driver \<Rightarrow> config \<Rightarrow> state \<Rightarrow> exn option \<times> state" where
  \<comment> \<open>\<^verbatim>\<open>connect\<close> of the four vendor classes: they differ in the driver's keyword
     arguments and in the vendor's name in the messages\<close>
  "connect t drv cfg s =
     (case invoke drv (Connect t cfg) s of
        (Some e, s1) \<Rightarrow>
          (Some (SystemExit 1), log_error (''Failed to connect to '' @ db_label t @ '': '' @ e) s1)
      | (None, s1) \<Rightarrow>
          (case invoke drv OpenCursor (s1\<lparr>connection := Some Handle\<rparr>) of
             (Some e, s2) \<Rightarrow>
               (Some (SystemExit 1),
                log_error (''Failed to connect to '' @ db_label t @ '': '' @ e) s2)
           | (None, s2) \<Rightarrow>
               (None,
                log_info (''Connected to '' @ db_label t @ '' database: '' @ db_name cfg)
                  (s2\<lparr>cursor := Some Handle\<rparr>))))"

definition close :: "driver \<Rightarrow> state \<Rightarrow> exn option \<times> state" where
  \<comment> \<open>\<^verbatim>\<open>close\<close> of SchemaCreator, PostgresReader and MySQLReader (the same body);
     a handle that is set is a driver object, which is true in a condition\<close>
  "close drv s =
     (case (if cursor s \<noteq> None then invoke drv CloseCursor s else (None, s)) of
        (Some e, s1) \<Rightarrow> (Some (Exception e), s1)
      | (None, s1) \<Rightarrow>
          if connection s1 \<noteq> None then
            (case invoke drv CloseConnection s1 of
               (Some e, s2) \<Rightarrow> (Some (Exception e), s2)
             | (None, s2) \<Rightarrow> (None, log_info ''Database connection closed'' s2))
          else (None, s1))"

definition try_finally ::
  "(state \<Rightarrow> exn option \<times> state) \<Rightarrow> (state \<Rightarrow> exn option \<times> state) \<Rightarrow> state \<Rightarrow> exn option \<times> state" where
  \<comment> \<open>\<^verbatim>\<open>try: body finally: cleanup\<close>: the cleanup runs however the body ends; an
     exception of the cleanup replaces the body's\<close>
  "try_finally body cleanup s =
     (case body s of
        (r, s1) \<Rightarrow>
          (case cleanup s1 of
             (Some e, s2) \<Rightarrow> (Some e, s2)
           | (None, s2) \<Rightarrow> (r, s2)))"

definition and_then ::
  "exn option \<times> state \<Rightarrow> (state \<Rightarrow> exn option \<times> state) \<Rightarrow> exn option \<times> state" where
  \<comment> \<open>sequencing: an exception skips what follows\<close>
  "and_then r k = (case r of (Some e, s) \<Rightarrow> (Some e, s) | (None, s) \<Rightarrow> k s)"

section \<open>Configuration (DEFAULT_CONFIG and the head of main, in all three scripts)\<close>

record cli =
  arg_type :: db_type
  arg_name :: "string option"
  arg_user :: "string option"
  arg_password :: "string option"
  arg_host :: "string option"
  arg_port :: "string option"

record schema_args = cli +
  arg_schema :: "string option"
  arg_example :: "string option"
  arg_generate_example :: bool

record reader_args = cli +
  arg_query :: "string option"
  arg_list_tables :: bool
  arg_describe :: "string option"
  arg_format :: string

definition getenv :: "(string \<rightharpoonup> string) \<Rightarrow> string \<Rightarrow> string \<Rightarrow> string" where
  \<comment> \<open>\<^verbatim>\<open>os.getenv(key, default)\<close>\<close>
  "getenv vars key dflt = (case vars key of Some v \<Rightarrow> v | None \<Rightarrow> dflt)"

definition DEFAULT_CONFIG :: "(string \<rightharpoonup> string) \<Rightarrow> db_type \<Rightarrow> config" where
  "DEFAULT_CONFIG vars t =
     \<lparr>db_name = getenv vars ''DB_NAME'' ''myapp_db'',
      db_user = getenv vars ''DB_USER'' ''myapp_user'',
      db_password = getenv vars ''DB_PASSWORD'' ''changeme123'',
      db_host = getenv vars ''DB_HOST'' ''localhost'',
      db_port = getenv vars ''DB_PORT'' (case t of Postgres \<Rightarrow> ''5432'' | MySQL \<Rightarrow> ''3306'')\<rparr>"

definition given :: "string option \<Rightarrow> bool" where
  \<comment> \<open>the truth value of an optional argument: \<^verbatim>\<open>None\<close> and \<^verbatim>\<open>''\<close> are false\<close>
  "given a = (case a of None \<Rightarrow> False | Some v \<Rightarrow> v \<noteq> [])"

definition override :: "string option \<Rightarrow> string \<Rightarrow> string" where
  \<comment> \<open>\<^verbatim>\<open>if args.x: config[k] = args.x\<close>, as the new value of \<^verbatim>\<open>config[k]\<close>\<close>
  "override a current = (case a of None \<Rightarrow> current | Some v \<Rightarrow> if v \<noteq> [] then v else current)"

definition get_configuration :: "(string \<rightharpoonup> string) \<Rightarrow> 'a cli_scheme \<Rightarrow> config" where
  "get_configuration vars a =
     (let config = DEFAULT_CONFIG vars (arg_type a)
      in \<lparr>db_name = override (arg_name a) (db_name config),
          db_user = override (arg_user a) (db_user config),
          db_password = override (arg_password a) (db_password config),
          db_host = override (arg_host a) (db_host config),
          db_port = override (arg_port a) (db_port config)\<rparr>)"

definition spec_layered :: "string \<Rightarrow> string option \<Rightarrow> string option \<Rightarrow> string" where
  \<comment> \<open>The specification's wording: the built-in default unless the environment variable
     is set, and an explicit flag overrides both.\<close>
  "spec_layered dflt from_env flag =
     (case flag of
        Some v \<Rightarrow> v
      | None \<Rightarrow> (case from_env of Some v \<Rightarrow> v | None \<Rightarrow> dflt))"

section \<open>What the scripts see of the machine\<close>

datatype file_status = Missing | Unreadable string | Readable string

record environment =
  environ :: "string \<rightharpoonup> string"  \<comment> \<open>\<^verbatim>\<open>os.environ\<close>\<close>
  files :: "string \<Rightarrow> file_status"     \<comment> \<open>\<^verbatim>\<open>os.path.exists\<close>, \<^verbatim>\<open>open(path).read()\<close>\<close>
  available :: "db_type \<Rightarrow> bool"   \<comment> \<open>POSTGRES_AVAILABLE, MYSQL_AVAILABLE\<close>
  EXAMPLE_SCHEMAS :: "(string \<times> (db_type \<Rightarrow> string)) list"
  date_output :: string            \<comment> \<open>\<^verbatim>\<open>os.popen('date').read()\<close>\<close>

definition type_name :: "db_type \<Rightarrow> string" where
  "type_name t = (case t of Postgres \<Rightarrow> ''postgres'' | MySQL \<Rightarrow> ''mysql'')"

definition not_installed :: "db_type \<Rightarrow> string" where
  "not_installed t =
     (case t of
        Postgres \<Rightarrow> ''psycopg2 is not installed. Install it with: pip install psycopg2-binary''
      | MySQL \<Rightarrow> ''mysql-connector-python is not installed. Install it with: pip install mysql-connector-python'')"

section \<open>create_schema.py, main\<close>

fun print_examples :: "db_type \<Rightarrow> (string \<times> (db_type \<Rightarrow> string)) list \<Rightarrow> state \<Rightarrow> state" where
  "print_examples t [] s = s"
| "print_examples t ((table_name, schemas) # rest) s =
     print_examples t rest
       (emit (Print []) (emit (Print (schemas t)) (emit (Print (''-- Table: '' @ table_name)) s)))"

definition generate_example :: "environment \<Rightarrow> db_type \<Rightarrow> state \<Rightarrow> state" where
  "generate_example env t s =
     print_examples t (EXAMPLE_SCHEMAS env)
       (emit (Print [])
         (emit (Print (''-- Generated on '' @ strip (date_output env)))
           (emit (Print (''-- Example Schema for '' @ upper (type_name t))) s)))"

fun create_examples ::
  "environment \<Rightarrow> driver \<Rightarrow> db_type \<Rightarrow> string list \<Rightarrow> state \<Rightarrow> exn option \<times> state" where
  "create_examples env drv t [] s = (None, s)"
| "create_examples env drv t (table # tables) s =
     (case map_of (EXAMPLE_SCHEMAS env) table of
        None \<Rightarrow> create_examples env drv t tables (log_warn (''Unknown example table: '' @ table) s)
      | Some schemas \<Rightarrow>
          (case execute_sql drv (schemas t) (log_info (''Creating example table: '' @ table) s) of
             (Inl e, s1) \<Rightarrow> (Some e, s1)
           | (Inr ok, s1) \<Rightarrow> create_examples env drv t tables s1))"

definition create_operation ::
  "environment \<Rightarrow> driver \<Rightarrow> schema_args \<Rightarrow> state \<Rightarrow> exn option \<times> state" where
  \<comment> \<open>the requested operation, inside the \<^verbatim>\<open>try\<close>\<close>
  "create_operation env drv a s =
     (case (if given (arg_schema a) then arg_schema a else None) of
        Some path \<Rightarrow>
          (case files env path of
             Missing \<Rightarrow> (Some (SystemExit 1), log_error (''Schema file not found: '' @ path) s)
           | Unreadable e \<Rightarrow> (Some (Exception e), s)
           | Readable sql \<Rightarrow>
               (case execute_sql drv sql (log_info (''Creating schema from file: '' @ path) s) of
                  (Inl e, s1) \<Rightarrow> (Some e, s1)
                | (Inr ok, s1) \<Rightarrow> (None, s1)))
      | None \<Rightarrow>
          (case (if given (arg_example a) then arg_example a else None) of
             Some names \<Rightarrow>
               create_examples env drv (arg_type a) (map strip (split_on (CHR '','') names)) s
           | None \<Rightarrow>
               (None, emit PrintHelp (log_error ''Please specify --schema or --example'' s))))"

definition create_body ::
  "environment \<Rightarrow> driver \<Rightarrow> schema_args \<Rightarrow> config \<Rightarrow> state \<Rightarrow> exn option \<times> state" where
  \<comment> \<open>the \<^verbatim>\<open>try\<close> block of \<^verbatim>\<open>main\<close>\<close>
  "create_body env drv a config s =
     and_then (connect (arg_type a) drv config s) (create_operation env drv a)"

definition create_schema_main ::
  "environment \<Rightarrow> driver \<Rightarrow> schema_args \<Rightarrow> state \<Rightarrow> exn option \<times> state" where
  \<comment> \<open>\<^verbatim>\<open>main\<close> after the arguments are parsed. The result is the exception that ends
     the process, if any.\<close>
  "create_schema_main env drv a s0 =
     (if arg_generate_example a then (None, generate_example env (arg_type a) s0)
      else
        (let config = get_configuration (environ env) a;
             s = s0\<lparr>connection := None, cursor := None\<rparr>
         in if \<not> available env (arg_type a)
            then (Some (SystemExit 1), log_error (not_installed (arg_type a)) s)
            else try_finally (create_body env drv a config) (close drv) s))"

section \<open>read_database.py, main\<close>

fun column :: "string \<Rightarrow> row list \<Rightarrow> exn + pyval list" where
  \<comment> \<open>\<^verbatim>\<open>[row[key] for row in results]\<close>; a missing key raises KeyError\<close>
  "column key [] = Inr []"
| "column key (r # rs) =
     (case map_of r key of
        None \<Rightarrow> Inl (Exception ([apostrophe] @ key @ [apostrophe]))
      | Some v \<Rightarrow> (case column key rs of Inl e \<Rightarrow> Inl e | Inr vs \<Rightarrow> Inr (v # vs)))"

definition postgres_list_tables_query :: string where
  "postgres_list_tables_query =
     [newline] @ ''            SELECT table_name '' @
     [newline] @ ''            FROM information_schema.tables '' @
     [newline] @ ''            WHERE table_schema = 'public' AND table_type = 'BASE TABLE'' @ [apostrophe] @
     [newline] @ ''            ORDER BY table_name;'' @
     [newline] @ ''        ''"

definition postgres_describe_query :: "string \<Rightarrow> string" where
  "postgres_describe_query table_name =
     [newline] @ ''            SELECT '' @
     [newline] @ ''                column_name,'' @
     [newline] @ ''                data_type,'' @
     [newline] @ ''                character_maximum_length,'' @
     [newline] @ ''                is_nullable,'' @
     [newline] @ ''                column_default'' @
     [newline] @ ''            FROM information_schema.columns'' @
     [newline] @ ''            WHERE table_name = '' @ [apostrophe] @ table_name @ [apostrophe] @
     [newline] @ ''            ORDER BY ordinal_position;'' @
     [newline] @ ''        ''"

definition list_tables :: "db_type \<Rightarrow> driver \<Rightarrow> state \<Rightarrow> (exn + pyval list) \<times> state" where
  "list_tables t drv s =
     (case t of
        Postgres \<Rightarrow>
          (case PostgresReader_execute_query drv postgres_list_tables_query s of
             (results, s1) \<Rightarrow> (column ''table_name'' results, s1))
      | MySQL \<Rightarrow>
          (case MySQLReader_execute_query drv ''SHOW TABLES;'' s of
             (results, s1) \<Rightarrow>
               (case results of
                  [] \<Rightarrow> (Inr [], s1)
                | first # _ \<Rightarrow>
                    (case keys first of
                       [] \<Rightarrow> (Inl (Exception ''list index out of range''), s1)
                     | key # _ \<Rightarrow> (column key results, s1)))))"

definition describe_table :: "db_type \<Rightarrow> driver \<Rightarrow> string \<Rightarrow> state \<Rightarrow> row list \<times> state" where
  "describe_table t drv table_name s =
     (case t of
        Postgres \<Rightarrow> PostgresReader_execute_query drv (postgres_describe_query table_name) s
      | MySQL \<Rightarrow> MySQLReader_execute_query drv (''DESCRIBE '' @ table_name @ '';'') s)"

definition emit_all :: "out_line list \<Rightarrow> state \<Rightarrow> state" where
  "emit_all outs s = s\<lparr>console := console s @ outs\<rparr>"

definition read_operation ::
  "driver \<Rightarrow> config \<Rightarrow> reader_args \<Rightarrow> state \<Rightarrow> exn option \<times> state" where
  \<comment> \<open>the requested operation, inside the \<^verbatim>\<open>try\<close>\<close>
  "read_operation drv config a s =
     (if arg_list_tables a then
        (case list_tables (arg_type a) drv s of
           (Inl e, s1) \<Rightarrow> (Some e, s1)
         | (Inr tables, s1) \<Rightarrow>
             if tables \<noteq> [] then
               (None,
                emit_all (map (\<lambda>table. Print (''  - '' @ str table)) tables)
                  (log_info (''Tables in database '' @ [apostrophe] @ db_name config
                             @ [apostrophe] @ '':'') s1))
             else (None, log_warn ''No tables found in database'' s1))
      else
        (case (if given (arg_describe a) then arg_describe a else None) of
           Some table_name \<Rightarrow>
             (case describe_table (arg_type a) drv table_name s of
                (results, s1) \<Rightarrow>
                  if results \<noteq> [] then
                    (None,
                     emit_all (print_results results (arg_format a))
                       (log_info (''Structure of table '' @ [apostrophe] @ table_name
                                  @ [apostrophe] @ '':'') s1))
                  else
                    (None,
                     log_warn (''Table '' @ [apostrophe] @ table_name @ [apostrophe]
                               @ '' not found'') s1))
         | None \<Rightarrow>
             (case (if given (arg_query a) then arg_query a else None) of
                Some query \<Rightarrow>
                  (case execute_query (arg_type a) drv query s of
                     (results, s1) \<Rightarrow>
                       if results \<noteq> [] then
                         (None, emit_all (print_results results (arg_format a)) s1)
                       else if \<not> is_select query then
                         (None, log_info ''Query executed successfully'' s1)
                       else (None, s1))
              | None \<Rightarrow>
                  (None,
                   emit PrintHelp
                     (log_error ''Please specify --query, --list-tables, or --describe'' s)))))"

definition read_body ::
  "driver \<Rightarrow> reader_args \<Rightarrow> config \<Rightarrow> state \<Rightarrow> exn option \<times> state" where
  \<comment> \<open>the \<^verbatim>\<open>try\<close> block of \<^verbatim>\<open>main\<close>\<close>
  "read_body drv a config s =
     and_then (connect (arg_type a) drv config s) (read_operation drv config a)"

definition read_database_main ::
  "environment \<Rightarrow> driver \<Rightarrow> reader_args \<Rightarrow> state \<Rightarrow> exn option \<times> state" where
  "read_database_main env drv a s0 =
     (let config = get_configuration (environ env) a
      in if \<not> available env (arg_type a)
         then (Some (SystemExit 1), log_error (not_installed (arg_type a)) s0)
         else
           (let s = s0\<lparr>connection := None, cursor := None\<rparr>
            in try_finally (read_body drv a config) (close drv) s))"

section \<open>Predicates and inputs used in the statements below\<close>

fun accepts :: "driver \<Rightarrow> call list \<Rightarrow> string list \<Rightarrow> bool" where
  \<comment> \<open>after the calls \<open>history\<close>, the driver executes each of the statements in turn
     without raising\<close>
  "accepts drv history [] = True"
| "accepts drv history (q # qs) =
     (raises drv history (Execute q) = None \<and> accepts drv (history @ [Execute q]) qs)"

definition announce :: "string \<Rightarrow> out_line" where
  \<comment> \<open>the line \<^verbatim>\<open>execute_sql\<close> logs before it executes a statement\<close>
  "announce statement = Info (''Executing: '' @ take 80 statement @ ''...'')"

definition connected :: state where
  \<comment> \<open>the state \<^verbatim>\<open>connect\<close> leaves: both handles set, nothing called or written yet\<close>
  "connected = \<lparr>connection = Some Handle, cursor = Some Handle, calls = [], console = []\<rparr>"

definition fresh :: state where
  \<comment> \<open>the state of a new creator or reader: no handle set\<close>
  "fresh = \<lparr>connection = None, cursor = None, calls = [], console = []\<rparr>"

definition obliging :: driver where
  \<comment> \<open>a driver on which no call raises and every query has no rows\<close>
  "obliging = \<lparr>raises = (\<lambda>history c. None), fetched = (\<lambda>history. [])\<rparr>"

definition fails_on :: "call \<Rightarrow> string \<Rightarrow> driver" where
  \<comment> \<open>a driver on which exactly the call \<open>c\<close> raises, with error text \<open>e\<close>\<close>
  "fails_on c e = \<lparr>raises = (\<lambda>history c'. if c' = c then Some e else None),
                   fetched = (\<lambda>history. [])\<rparr>"

definition two_rows :: "row list" where
  \<comment> \<open>\<^verbatim>\<open>[{"id": 1, "name": "ann"}, {"id": 2, "name": "bob"}]\<close>\<close>
  "two_rows = [[(''id'', PInt 1), (''name'', PStr ''ann'')],
               [(''id'', PInt 2), (''name'', PStr ''bob'')]]"

definition no_flags :: "db_type \<Rightarrow> cli" where
  \<comment> \<open>a command line with \<^verbatim>\<open>--type\<close> only\<close>
  "no_flags t = \<lparr>arg_type = t, arg_name = None, arg_user = None, arg_password = None,
                  arg_host = None, arg_port = None\<rparr>"

definition quiet :: "call list \<Rightarrow> bool" where
  \<comment> \<open>neither the cursor nor the connection is closed by any of the calls\<close>
  "quiet cs = (CloseCursor \<notin> set cs \<and> CloseConnection \<notin> set cs)"

definition carries_on :: "state \<Rightarrow> state \<Rightarrow> bool" where
  \<comment> \<open>from the first state to the second the handles are kept, and the calls made in
     between close nothing\<close>
  "carries_on s s' =
     (connection s' = connection s \<and> cursor s' = cursor s
      \<and> (\<exists>new. calls s' = calls s @ new \<and> quiet new))"

definition create_left :: "environment \<Rightarrow> driver \<Rightarrow> schema_args \<Rightarrow> state \<Rightarrow> state" where
  \<comment> \<open>the state in which \<^verbatim>\<open>main\<close> of create_schema.py leaves its \<^verbatim>\<open>try\<close> block,
     normally or by an exception\<close>
  "create_left env drv a s0 =
     snd (create_body env drv a (get_configuration (environ env) a)
            (s0\<lparr>connection := None, cursor := None\<rparr>))"

definition read_left :: "environment \<Rightarrow> driver \<Rightarrow> reader_args \<Rightarrow> state \<Rightarrow> state" where
  \<comment> \<open>the state in which \<^verbatim>\<open>main\<close> of read_database.py leaves its \<^verbatim>\<open>try\<close> block\<close>
  "read_left env drv a s0 =
     snd (read_body drv a (get_configuration (environ env) a)
            (s0\<lparr>connection := None, cursor := None\<rparr>))"

definition bare :: environment where
  \<comment> \<open>a machine with both drivers installed, no environment variable set and no file\<close>
  "bare = \<lparr>environ = Map.empty, files = (\<lambda>path. Missing), available = (\<lambda>t. True),
            EXAMPLE_SCHEMAS = [], date_output = []\<rparr>"

definition only_type :: "db_type \<Rightarrow> schema_args" where
  \<comment> \<open>\<^verbatim>\<open>create_schema.py --type t\<close>\<close>
  "only_type t = \<lparr>arg_type = t, arg_name = None, arg_user = None, arg_password = None,
                   arg_host = None, arg_port = None,
                   arg_schema = None, arg_example = None, arg_generate_example = False\<rparr>"

definition list_tables_of :: "db_type \<Rightarrow> reader_args" where
  \<comment> \<open>\<^verbatim>\<open>read_database.py --type t --list-tables\<close>\<close>
  "list_tables_of t = \<lparr>arg_type = t, arg_name = None, arg_user = None, arg_password = None,
                        arg_host = None, arg_port = None,
                        arg_query = None, arg_list_tables = True, arg_describe = None,
                        arg_format = ''table''\<rparr>"

definition default_mysql :: config where
  \<comment> \<open>the built-in defaults for MySQL\<close>
  "default_mysql = \<lparr>db_name = ''myapp_db'', db_user = ''myapp_user'', db_password = ''changeme123'',
                     db_host = ''localhost'', db_port = ''3306''\<rparr>"

definition default_postgres :: config where
  \<comment> \<open>the built-in defaults for PostgreSQL\<close>
  "default_postgres = \<lparr>db_name = ''myapp_db'', db_user = ''myapp_user'',
                        db_password = ''changeme123'', db_host = ''localhost'', db_port = ''5432''\<rparr>"

section \<open>Facts about the text primitives\<close>

lemma split_on_not_Nil: "split_on c s \<noteq> []"
  by (induction s) (auto split: list.splits)

lemma split_on_no_sep: "c \<notin> set s \<Longrightarrow> split_on c s = [s]"
  by (induction s) auto

lemma split_on_append_sep:
  "c \<notin> set x \<Longrightarrow> split_on c (x @ c # rest) = x # split_on c rest"
  by (induction x) auto

lemma split_on_fragments_no_sep: "f \<in> set (split_on c s) \<Longrightarrow> c \<notin> set f"
proof (induction s arbitrary: f)
  case Nil
  then show ?case by simp
next
  case (Cons x xs)
  obtain w ws where sp: "split_on c xs = w # ws"
    using split_on_not_Nil [of c xs] by (cases "split_on c xs") auto
  show ?case
  proof (cases "x = c")
    case True
    with Cons show ?thesis by auto
  next
    case False
    with Cons.prems sp have "f = x # w \<or> f \<in> set ws" by auto
    moreover have "c \<notin> set w" using Cons.IH [of w] sp by simp
    moreover have "f \<in> set ws \<Longrightarrow> c \<notin> set f" using Cons.IH [of f] sp by simp
    ultimately show ?thesis using False by auto
  qed
qed

lemma join_split_on: "join [c] (split_on c s) = s"
proof (induction s)
  case Nil
  then show ?case by simp
next
  case (Cons x xs)
  obtain w ws where sp: "split_on c xs = w # ws"
    using split_on_not_Nil [of c xs] by (cases "split_on c xs") auto
  show ?case
  proof (cases "x = c")
    case True
    with Cons sp show ?thesis by simp
  next
    case False
    with Cons sp show ?thesis by (cases ws) auto
  qed
qed

lemma join_Cons: "xs \<noteq> [] \<Longrightarrow> join sep (x # xs) = x @ sep @ join sep xs"
  by (cases xs) auto

lemma split_on_join:
  "xs \<noteq> [] \<Longrightarrow> (\<And>x. x \<in> set xs \<Longrightarrow> c \<notin> set x) \<Longrightarrow> split_on c (join [c] xs) = xs"
proof (induction xs rule: list_nonempty_induct)
  case (single x)
  then show ?case by (simp add: split_on_no_sep)
next
  case (cons x xs)
  have "c \<notin> set x" using cons.prems by simp
  moreover have "split_on c (join [c] xs) = xs" using cons by simp
  ultimately show ?case using cons.hyps by (simp add: join_Cons split_on_append_sep)
qed

lemma split_on_snoc_sep: "split_on c (s @ [c]) = split_on c s @ [[]]"
proof (induction s)
  case Nil
  then show ?case by simp
next
  case (Cons x xs)
  then show ?case
    using split_on_not_Nil [of c xs] by (cases "split_on c xs") auto
qed

lemma set_lstrip: "set (lstrip s) \<subseteq> set s"
  unfolding lstrip_def by (auto dest: set_dropWhileD)

lemma set_rstrip: "set (rstrip s) \<subseteq> set s"
  unfolding rstrip_def by (auto dest: set_dropWhileD)

lemma set_strip: "set (strip s) \<subseteq> set s"
  unfolding strip_def using set_lstrip set_rstrip by blast

lemma strip_Nil [simp]: "strip [] = []"
  by (simp add: strip_def lstrip_def rstrip_def)

lemma strip_hd: "strip s \<noteq> [] \<Longrightarrow> \<not> isspace (hd (strip s))"
proof -
  assume ne: "strip s \<noteq> []"
  let ?l = "dropWhile isspace s"
  have l_ne: "?l \<noteq> []"
  proof
    assume e: "?l = []"
    have "strip s = []" unfolding strip_def lstrip_def rstrip_def e by simp
    with ne show False by simp
  qed
  then have hl: "\<not> isspace (hd ?l)" by (rule hd_dropWhile)
  obtain k where k: "strip s = take k ?l"
  proof -
    have "rev (dropWhile isspace (rev ?l)) = take (length ?l - length (takeWhile isspace (rev ?l))) ?l"
      by (metis dropWhile_eq_drop rev_drop rev_rev_ident length_rev)
    then show ?thesis using that by (simp add: strip_def lstrip_def rstrip_def)
  qed
  with ne have "hd (strip s) = hd ?l" by (cases k; cases ?l) auto
  with hl show ?thesis by simp
qed

lemma strip_last: "strip s \<noteq> [] \<Longrightarrow> \<not> isspace (last (strip s))"
proof -
  assume ne: "strip s \<noteq> []"
  let ?r = "dropWhile isspace (rev (lstrip s))"
  have "?r \<noteq> []" using ne by (auto simp: strip_def rstrip_def)
  then have "\<not> isspace (hd ?r)" by (rule hd_dropWhile)
  moreover have "last (strip s) = hd ?r"
    using \<open>?r \<noteq> []\<close> by (simp add: strip_def rstrip_def last_rev)
  ultimately show ?thesis by simp
qed

lemma strip_fixed:
  assumes "s \<noteq> []" "\<not> isspace (hd s)" "\<not> isspace (last s)"
  shows "strip s = s"
proof -
  have l: "lstrip s = s" using assms by (cases s) (auto simp: lstrip_def)
  have "dropWhile isspace (rev s) = rev s"
    using assms by (cases "rev s") (auto simp: last_rev [symmetric] hd_rev)
  then show ?thesis by (simp add: strip_def rstrip_def l)
qed

lemma strip_idem: "strip (strip s) = strip s"
proof (cases "strip s = []")
  case True
  then show ?thesis by simp
next
  case False
  then show ?thesis by (intro strip_fixed strip_hd strip_last)
qed


lemma statements_members:
  assumes "t \<in> set (statements sql)"
  shows "t \<noteq> []" and "strip t = t" and "CHR '';'' \<notin> set t"
proof -
  from assms obtain f where f: "f \<in> set (split_on (CHR '';'') sql)" "strip f \<noteq> []" "t = strip f"
    by (auto simp: statements_def)
  show "t \<noteq> []" using f by simp
  show "strip t = t" using f by (simp add: strip_idem)
  have "CHR '';'' \<notin> set f" using f(1) by (rule split_on_fragments_no_sep)
  then show "CHR '';'' \<notin> set t" using f(3) set_strip [of f] by auto
qed

lemma statements_eq_spec: "statements sql = spec_statements sql"
  by (simp add: statements_def spec_statements_def filter_map comp_def)

lemma statements_rejoin: "statements (join '';'' (statements sql)) = statements sql"
proof (cases "statements sql = []")
  case True
  then show ?thesis by (simp add: statements_def)
next
  case False
  have sp: "split_on (CHR '';'') (join '';'' (statements sql)) = statements sql"
    using False statements_members(3) by (intro split_on_join) auto
  have keep: "filter (\<lambda>s. strip s \<noteq> []) (statements sql) = statements sql"
    using statements_members(1,2) by (intro filter_True) auto
  have fixed: "map strip (statements sql) = statements sql"
    using statements_members(2) by (intro map_idI) auto
  show ?thesis
    unfolding statements_def [of "join '';'' (statements sql)"] sp keep fixed ..
qed

lemma statements_trailing_semicolon: "statements (sql @ '';'') = statements sql"
  by (simp add: statements_def split_on_snoc_sep)

lemma split_on_fragments_subset: "f \<in> set (split_on c s) \<Longrightarrow> set f \<subseteq> set s"
proof (induction s arbitrary: f)
  case Nil
  then show ?case by simp
next
  case (Cons x xs)
  obtain w ws where sp: "split_on c xs = w # ws"
    using split_on_not_Nil [of c xs] by (cases "split_on c xs") auto
  have w: "set w \<subseteq> set xs" using Cons.IH [of w] sp by simp
  have ws: "\<And>g. g \<in> set ws \<Longrightarrow> set g \<subseteq> set xs" using Cons.IH sp by simp
  show ?case
  proof (cases "x = c")
    case True
    with Cons.prems sp have "f = [] \<or> f = w \<or> f \<in> set ws" by auto
    with w ws show ?thesis by auto
  next
    case False
    with Cons.prems sp have "f = x # w \<or> f \<in> set ws" by auto
    with w ws show ?thesis by auto
  qed
qed

lemma strip_blank: "\<forall>c \<in> set f. isspace c \<Longrightarrow> strip f = []"
proof -
  assume "\<forall>c \<in> set f. isspace c"
  then have d: "dropWhile isspace f = []" by (induction f) auto
  show ?thesis unfolding strip_def lstrip_def rstrip_def d by simp
qed

lemma statements_blank:
  assumes "\<forall>c \<in> set sql. isspace c \<or> c = CHR '';''"
  shows "statements sql = []"
proof -
  have "strip f = []" if f: "f \<in> set (split_on (CHR '';'') sql)" for f
  proof (rule strip_blank, rule ballI)
    fix c assume c: "c \<in> set f"
    then have "c \<in> set sql" using split_on_fragments_subset [OF f] by auto
    moreover have "c \<noteq> CHR '';''" using split_on_fragments_no_sep [OF f] c by auto
    ultimately show "isspace c" using assms by auto
  qed
  then have "filter (\<lambda>s. strip s \<noteq> []) (split_on (CHR '';'') sql) = []"
    by (simp add: filter_empty_conv)
  then show ?thesis by (simp add: statements_def)
qed

lemma strip_borders:
  "\<exists>l r. f = l @ strip f @ r \<and> (\<forall>c \<in> set l. isspace c) \<and> (\<forall>c \<in> set r. isspace c)"
proof -
  let ?d = "dropWhile isspace f"
  let ?r = "rev (takeWhile isspace (rev ?d))"
  have d: "?d = strip f @ ?r"
    unfolding strip_def lstrip_def rstrip_def
    by (metis rev_append rev_rev_ident takeWhile_dropWhile_id)
  have "takeWhile isspace f @ ?d = takeWhile isspace f @ (strip f @ ?r)"
    using arg_cong [OF d, of "\<lambda>x. takeWhile isspace f @ x"] .
  then have f: "f = takeWhile isspace f @ strip f @ ?r"
    by (simp only: takeWhile_dropWhile_id)
  have l: "\<forall>c \<in> set (takeWhile isspace f). isspace c"
    by (auto dest: set_takeWhileD)
  have r: "\<forall>c \<in> set ?r. isspace c"
    by (auto dest: set_takeWhileD)
  from f l r show ?thesis by blast
qed

lemma statements_ends:
  assumes "t \<in> set (statements sql)"
  shows "\<not> isspace (hd t)" and "\<not> isspace (last t)"
proof -
  from assms obtain f where f: "strip f \<noteq> []" "t = strip f"
    by (auto simp: statements_def)
  show "\<not> isspace (hd t)" using f strip_hd by simp
  show "\<not> isspace (last t)" using f strip_last by simp
qed

section \<open>Facts about the statement loop\<close>

lemma invoke_simps [simp]:
  "fst (invoke drv c s) = raises drv (calls s) c"
  "snd (invoke drv c s) = s\<lparr>calls := calls s @ [c]\<rparr>"
  by (simp_all add: invoke_def)

lemma emit_simps [simp]:
  "calls (emit out s) = calls s"
  "console (emit out s) = console s @ [out]"
  "connection (emit out s) = connection s"
  "cursor (emit out s) = cursor s"
  by (simp_all add: emit_def)

lemma run_statements_append:
  "run_statements drv (xs @ ys) s =
     (case run_statements drv xs s of
        (Some e, s1) \<Rightarrow> (Some e, s1)
      | (None, s1) \<Rightarrow> run_statements drv ys s1)"
  by (induction xs arbitrary: s) (auto split: prod.splits option.splits)

lemma run_statements_accepts:
  "[] \<notin> set qs \<Longrightarrow> accepts drv (calls s) qs \<Longrightarrow>
   run_statements drv qs s =
     (None, s\<lparr>calls := calls s @ map Execute qs, console := console s @ map announce qs\<rparr>)"
proof (induction qs arbitrary: s)
  case Nil
  then show ?case by simp
next
  case (Cons q qs)
  let ?s1 = "snd (invoke drv (Execute q) (log_info (''Executing: '' @ take 80 q @ ''...'') s))"
  have q: "q \<noteq> []" and r: "raises drv (calls s) (Execute q) = None"
    and rest: "accepts drv (calls s @ [Execute q]) qs"
    using Cons.prems by auto
  have c1: "calls ?s1 = calls s @ [Execute q]" by (simp add: log_info_def)
  have "run_statements drv (q # qs) s = run_statements drv qs ?s1"
    using q r by (simp add: invoke_def log_info_def split: prod.splits)
  also have "\<dots> = (None, ?s1\<lparr>calls := calls ?s1 @ map Execute qs,
                              console := console ?s1 @ map announce qs\<rparr>)"
    using Cons.IH [of ?s1] Cons.prems rest c1 by simp
  also have "\<dots> = (None, s\<lparr>calls := calls s @ map Execute (q # qs),
                           console := console s @ map announce (q # qs)\<rparr>)"
    by (simp add: log_info_def emit_def announce_def)
  finally show ?case .
qed

lemma run_statements_raises:
  assumes "[] \<notin> set pre" "b \<noteq> []" "accepts drv (calls s) pre"
    and "raises drv (calls s @ map Execute pre) (Execute b) = Some e"
  shows "run_statements drv (pre @ b # post) s =
     (Some e, s\<lparr>calls := calls s @ map Execute pre @ [Execute b],
               console := console s @ map announce pre @ [announce b]\<rparr>)"
proof -
  let ?s1 = "s\<lparr>calls := calls s @ map Execute pre, console := console s @ map announce pre\<rparr>"
  have pre: "run_statements drv pre s = (None, ?s1)"
    using assms(1,3) by (rule run_statements_accepts)
  have "run_statements drv (b # post) ?s1 =
          (Some e, ?s1\<lparr>calls := calls ?s1 @ [Execute b], console := console ?s1 @ [announce b]\<rparr>)"
    using assms(2,4) by (simp add: invoke_def log_info_def emit_def announce_def)
  then show ?thesis by (simp add: run_statements_append pre)
qed

lemma executed_append [simp]: "executed (xs @ ys) = executed xs @ executed ys"
  by (simp add: executed_def)

lemma executed_map_Execute [simp]: "executed (map Execute qs) = qs"
  by (induction qs) (simp_all add: executed_def)

lemma executed_simps [simp]:
  "executed [] = []"
  "executed (Execute q # cs) = q # executed cs"
  "executed (Commit # cs) = executed cs"
  "executed (Rollback # cs) = executed cs"
  by (simp_all add: executed_def)

lemma count_call_append [simp]: "count_call c (xs @ ys) = count_call c xs + count_call c ys"
  by (simp add: count_call_def)

lemma count_call_map_Execute [simp]:
  "count_call Commit (map Execute qs) = 0" "count_call Rollback (map Execute qs) = 0"
  by (induction qs) (simp_all add: count_call_def)

lemma count_call_simps [simp]:
  "count_call c [] = 0"
  "count_call c (x # xs) = (if x = c then 1 else 0) + count_call c xs"
  by (simp_all add: count_call_def)

lemma execute_sql_cong: "statements sql = statements sql' \<Longrightarrow> execute_sql drv sql s = execute_sql drv sql' s"
  by (simp add: execute_sql_def)

lemma execute_sql_success:
  assumes "accepts drv (calls s) (statements sql)"
    and "raises drv (calls s @ map Execute (statements sql)) Commit = None"
  shows "execute_sql drv sql s =
     (Inr True,
      s\<lparr>calls := calls s @ map Execute (statements sql) @ [Commit],
        console := console s @ map announce (statements sql)
                   @ [Success ''Schema created successfully!'']\<rparr>)"
proof -
  have ne: "[] \<notin> set (statements sql)" using statements_members(1) by blast
  show ?thesis
    using assms
    by (simp add: execute_sql_def run_statements_accepts [OF ne assms(1)] invoke_def
        log_success_def emit_def)
qed

lemma execute_sql_statement_raises:
  assumes "statements sql = pre @ b # post" "accepts drv (calls s) pre"
    and "raises drv (calls s @ map Execute pre) (Execute b) = Some e"
  shows "execute_sql drv sql s =
     ((case raises drv (calls s @ map Execute pre @ [Execute b]) Rollback of
         None \<Rightarrow> Inr False
       | Some e' \<Rightarrow> Inl (Exception e')),
      s\<lparr>calls := calls s @ map Execute pre @ [Execute b, Rollback],
        console := console s @ map announce pre
                   @ [announce b, Error (''Failed to execute SQL: '' @ e)]\<rparr>)"
proof -
  have ne: "[] \<notin> set (statements sql)" using statements_members(1) by blast
  then have pre: "[] \<notin> set pre" and b: "b \<noteq> []" using assms(1) by auto
  show ?thesis
    by (simp add: execute_sql_def assms(1) run_statements_raises [OF pre b assms(2,3)]
        on_failure_def invoke_def log_error_def emit_def split: option.splits)
qed

lemma execute_sql_commit_raises:
  assumes "accepts drv (calls s) (statements sql)"
    and "raises drv (calls s @ map Execute (statements sql)) Commit = Some e"
  shows "execute_sql drv sql s =
     ((case raises drv (calls s @ map Execute (statements sql) @ [Commit]) Rollback of
         None \<Rightarrow> Inr False
       | Some e' \<Rightarrow> Inl (Exception e')),
      s\<lparr>calls := calls s @ map Execute (statements sql) @ [Commit, Rollback],
        console := console s @ map announce (statements sql)
                   @ [Error (''Failed to execute SQL: '' @ e)]\<rparr>)"
proof -
  have ne: "[] \<notin> set (statements sql)" using statements_members(1) by blast
  show ?thesis
    using assms(2)
    by (simp add: execute_sql_def run_statements_accepts [OF ne assms(1)]
        on_failure_def invoke_def log_error_def emit_def split: option.splits)
qed

lemma ex_stmts_abc: "statements ''A;B;C'' = [''A'', ''B'', ''C'']"
  by (simp add: statements_def strip_def lstrip_def rstrip_def isspace_def)

section \<open>The statement sequence of a script\<close>

text \<open>
  Claim C2. For every SQL text, the statement sequence is what the specification
  describes: the text is split on the character \<open>;\<close> (the fragments joined with \<open>;\<close> give
  the text back, and no fragment contains a \<open>;\<close>), every fragment is trimmed, and the
  fragments that are empty after trimming are discarded. Trimming a fragment removes
  white space, and only white space, at both ends: the fragment is its trimmed form
  between two runs of white space, and a trimmed form that is not empty neither starts
  nor ends with white space. The surviving fragments keep their order (the result is a
  subsequence of the trimmed fragments); none is empty, none starts or ends with white
  space. The text \<^verbatim>\<open>CREATE TABLE t(x int);  ; INSERT INTO t VALUES (1);\<close> has exactly
  the two statements of the example, and white space before a \<open>;\<close> and at the end of the
  text is removed as well.
\<close>

theorem statements_split_trim_discard:
  "statements sql = spec_statements sql
   \<and> join '';'' (split_on (CHR '';'') sql) = sql
   \<and> (\<forall>f \<in> set (split_on (CHR '';'') sql). CHR '';'' \<notin> set f)
   \<and> (\<forall>f \<in> set (split_on (CHR '';'') sql).
         (\<exists>l r. f = l @ strip f @ r \<and> (\<forall>c \<in> set l. isspace c) \<and> (\<forall>c \<in> set r. isspace c))
         \<and> (strip f \<noteq> [] \<longrightarrow> \<not> isspace (hd (strip f)) \<and> \<not> isspace (last (strip f))))
   \<and> subseq (statements sql) (map strip (split_on (CHR '';'') sql))
   \<and> (\<forall>t \<in> set (statements sql).
         t \<noteq> [] \<and> \<not> isspace (hd t) \<and> \<not> isspace (last t) \<and> strip t = t)
   \<and> statements ''CREATE TABLE t(x int);  ; INSERT INTO t VALUES (1);''
       = [''CREATE TABLE t(x int)'', ''INSERT INTO t VALUES (1)'']
   \<and> statements ''a  ;b '' = [''a'', ''b'']
   \<and> statements ([newline] @ ''SELECT 1 ;'' @ [newline]) = [''SELECT 1'']"
proof (intro conjI)
  show "statements sql = spec_statements sql" by (rule statements_eq_spec)
  show "join '';'' (split_on (CHR '';'') sql) = sql" by (rule join_split_on)
  show "\<forall>f \<in> set (split_on (CHR '';'') sql). CHR '';'' \<notin> set f"
    using split_on_fragments_no_sep by blast
  show "\<forall>f \<in> set (split_on (CHR '';'') sql).
         (\<exists>l r. f = l @ strip f @ r \<and> (\<forall>c \<in> set l. isspace c) \<and> (\<forall>c \<in> set r. isspace c))
         \<and> (strip f \<noteq> [] \<longrightarrow> \<not> isspace (hd (strip f)) \<and> \<not> isspace (last (strip f)))"
    using strip_borders strip_hd strip_last by blast
  show "subseq (statements sql) (map strip (split_on (CHR '';'') sql))"
    unfolding statements_eq_spec spec_statements_def by (rule subseq_filter_left)
  show "\<forall>t \<in> set (statements sql).
         t \<noteq> [] \<and> \<not> isspace (hd t) \<and> \<not> isspace (last t) \<and> strip t = t"
    using statements_members(1,2) statements_ends by blast
  show "statements ''CREATE TABLE t(x int);  ; INSERT INTO t VALUES (1);''
       = [''CREATE TABLE t(x int)'', ''INSERT INTO t VALUES (1)'']"
    by (simp add: statements_def strip_def lstrip_def rstrip_def isspace_def)
  show "statements ''a  ;b '' = [''a'', ''b'']"
    by (simp add: statements_def strip_def lstrip_def rstrip_def isspace_def)
  show "statements ([newline] @ ''SELECT 1 ;'' @ [newline]) = [''SELECT 1'']"
    by (simp add: newline_def statements_def strip_def lstrip_def rstrip_def isspace_def)
qed

theorem statements_split_trim_discard_witness:
  "''b'' \<in> set (statements ''a  ;b '') \<and> ''b'' \<noteq> [] \<and> strip ''b'' = ''b''
   \<and> \<not> isspace (hd ''b'') \<and> \<not> isspace (last ''b'')
   \<and> ''b '' \<in> set (split_on (CHR '';'') ''a  ;b '') \<and> CHR '';'' \<notin> set ''b ''
   \<and> strip ''b '' \<noteq> [] \<and> \<not> isspace (last (strip ''b ''))
   \<and> statements ''a  ;b '' = spec_statements ''a  ;b ''"
proof -
  have m: "''b'' \<in> set (statements ''a  ;b '')"
    by (simp add: statements_def strip_def lstrip_def rstrip_def isspace_def)
  have f: "''b '' \<in> set (split_on (CHR '';'') ''a  ;b '')" by simp
  have n: "strip ''b '' \<noteq> []"
    by (simp add: strip_def lstrip_def rstrip_def isspace_def)
  note t = statements_split_trim_discard [of "''a  ;b ''"]
  from t m have 1: "''b'' \<noteq> [] \<and> \<not> isspace (hd ''b'') \<and> \<not> isspace (last ''b'') \<and> strip ''b'' = ''b''"
    by blast
  from t f n have 2: "CHR '';'' \<notin> set ''b '' \<and> \<not> isspace (last (strip ''b ''))"
    by blast
  from t have 3: "statements ''a  ;b '' = spec_statements ''a  ;b ''" by blast
  from m f n 1 2 3 show ?thesis by blast
qed

text \<open>
  Claim C6. For every script, splitting it, joining the statements with \<open>;\<close> and
  splitting the result again gives the statements of the first split.
\<close>

theorem split_rejoin_idempotent:
  "statements (join '';'' (statements s)) = statements s"
proof (cases "statements s = []")
  case True
  then show ?thesis by (simp add: statements_def)
next
  case False
  then show ?thesis by (simp add: statements_rejoin)
qed

theorem split_rejoin_idempotent_witness:
  "statements (join '';'' (statements ''a; ;b;'')) = [''a'', ''b'']"
proof -
  have "statements (join '';'' (statements ''a; ;b;'')) = statements ''a; ;b;''"
    by (rule split_rejoin_idempotent)
  also have "\<dots> = [''a'', ''b'']"
    by (simp add: statements_def strip_def lstrip_def rstrip_def isspace_def)
  finally show ?thesis .
qed

section \<open>Executing a script\<close>

text \<open>
  Claim C1, as the code has it. \<^verbatim>\<open>execute_sql\<close> returns a boolean, so a failure is
  the value \<open>False\<close>: it carries neither the position of the failing statement nor the
  error text (the text is logged). When the statements are \<open>pre @ b # post\<close>, the driver
  executes \<open>pre\<close> without raising and raises on \<open>b\<close> with text \<open>e\<close>, then exactly the
  statements of \<open>pre\<close> and \<open>b\<close> are passed to the cursor, none of \<open>post\<close> is, one rollback
  and no commit is issued, the last line logged is the error with the driver's text, and
  the value returned is \<open>False\<close> unless the rollback itself raises, whose exception is
  not caught. With \<open>pre = [A]\<close>, \<open>b = B\<close>, \<open>post = [C]\<close> this is the script of the claim.
\<close>

theorem execute_sql_first_failure:
  assumes "statements sql = pre @ b # post"
    and "accepts drv (calls s) pre"
    and "raises drv (calls s @ map Execute pre) (Execute b) = Some e"
  shows "calls (snd (execute_sql drv sql s)) = calls s @ map Execute pre @ [Execute b, Rollback]
     \<and> executed (calls (snd (execute_sql drv sql s))) = executed (calls s) @ pre @ [b]
     \<and> count_call Rollback (calls (snd (execute_sql drv sql s))) = count_call Rollback (calls s) + 1
     \<and> count_call Commit (calls (snd (execute_sql drv sql s))) = count_call Commit (calls s)
     \<and> console (snd (execute_sql drv sql s))
         = console s @ map announce pre @ [announce b, Error (''Failed to execute SQL: '' @ e)]
     \<and> fst (execute_sql drv sql s)
         = (case raises drv (calls s @ map Execute pre @ [Execute b]) Rollback of
              None \<Rightarrow> Inr False
            | Some e' \<Rightarrow> Inl (Exception e'))"
  by (simp add: execute_sql_statement_raises [OF assms])

theorem execute_sql_first_failure_witness:
  "calls (snd (execute_sql (fails_on (Execute ''B'') ''syntax error'') ''A;B;C'' connected))
     = [Execute ''A'', Execute ''B'', Rollback]
   \<and> fst (execute_sql (fails_on (Execute ''B'') ''syntax error'') ''A;B;C'' connected) = Inr False
   \<and> console (snd (execute_sql (fails_on (Execute ''B'') ''syntax error'') ''A;B;C'' connected))
     = [announce ''A'', announce ''B'', Error ''Failed to execute SQL: syntax error'']"
proof -
  let ?drv = "fails_on (Execute ''B'') ''syntax error''"
  have h1: "statements ''A;B;C'' = [''A''] @ ''B'' # [''C'']"
    by (simp add: ex_stmts_abc)
  have h2: "accepts ?drv (calls connected) [''A'']"
    by (simp add: fails_on_def connected_def)
  have h3: "raises ?drv (calls connected @ map Execute [''A'']) (Execute ''B'') = Some ''syntax error''"
    by (simp add: fails_on_def)
  have r: "raises ?drv (calls connected @ map Execute [''A''] @ [Execute ''B'']) Rollback = None"
    by (simp add: fails_on_def)
  from execute_sql_first_failure [OF h1 h2 h3] r show ?thesis
    by (simp add: connected_def)
qed

text \<open>
  Claim C1 as stated fails: the value returned does not tell where the script failed nor
  why. On the script \<^verbatim>\<open>A;B;C\<close>, a driver that raises on \<open>B\<close> (position 1) with one text
  and a driver that raises on \<open>A\<close> (position 0) with another text both make
  \<^verbatim>\<open>execute_sql\<close> return \<open>False\<close>.
\<close>

theorem execute_sql_failure_value_counterexample:
  "fst (execute_sql (fails_on (Execute ''B'') ''syntax error'') ''A;B;C'' connected) = Inr False
   \<and> executed (calls (snd (execute_sql (fails_on (Execute ''B'') ''syntax error'') ''A;B;C'' connected)))
       = [''A'', ''B'']
   \<and> fst (execute_sql (fails_on (Execute ''A'') ''no such table'') ''A;B;C'' connected) = Inr False
   \<and> executed (calls (snd (execute_sql (fails_on (Execute ''A'') ''no such table'') ''A;B;C'' connected)))
       = [''A'']"
  by (simp add: execute_sql_def ex_stmts_abc fails_on_def connected_def invoke_def
      on_failure_def log_info_def log_error_def emit_def)

text \<open>
  Claim C3, as the code has it. The commit is inside the \<^verbatim>\<open>try\<close> block too. When the
  driver executes every statement of the script without raising and the commit does not
  raise either, \<^verbatim>\<open>execute_sql\<close> passes exactly the statements to the cursor, in order,
  issues one commit and no rollback, and returns \<open>True\<close>. A script that consists of
  white space and semicolons only has no statements, so that nothing is executed (the
  commit is still issued), and a semicolon at the end of a script changes nothing.
\<close>

theorem execute_sql_all_valid:
  assumes "accepts drv (calls s) (statements sql)"
    and "raises drv (calls s @ map Execute (statements sql)) Commit = None"
  shows "fst (execute_sql drv sql s) = Inr True
     \<and> calls (snd (execute_sql drv sql s)) = calls s @ map Execute (statements sql) @ [Commit]
     \<and> executed (calls (snd (execute_sql drv sql s))) = executed (calls s) @ statements sql
     \<and> count_call Commit (calls (snd (execute_sql drv sql s))) = count_call Commit (calls s) + 1
     \<and> count_call Rollback (calls (snd (execute_sql drv sql s))) = count_call Rollback (calls s)
     \<and> execute_sql drv (sql @ '';'') s = execute_sql drv sql s
     \<and> ((\<forall>c \<in> set sql. isspace c \<or> c = CHR '';'') \<longrightarrow>
          statements sql = [] \<and> calls (snd (execute_sql drv sql s)) = calls s @ [Commit])"
proof -
  have same: "execute_sql drv (sql @ '';'') s = execute_sql drv sql s"
    by (rule execute_sql_cong) (rule statements_trailing_semicolon)
  have blank: "statements sql = []" if "\<forall>c \<in> set sql. isspace c \<or> c = CHR '';''"
    using that by (rule statements_blank)
  show ?thesis
    using same blank by (auto simp: execute_sql_success [OF assms])
qed

theorem execute_sql_all_valid_witness:
  "fst (execute_sql obliging ''A; B;'' connected) = Inr True
   \<and> calls (snd (execute_sql obliging ''A; B;'' connected)) = [Execute ''A'', Execute ''B'', Commit]
   \<and> fst (execute_sql obliging '' ; ;'' connected) = Inr True
   \<and> calls (snd (execute_sql obliging '' ; ;'' connected)) = [Commit]"
proof -
  have st: "statements ''A; B;'' = [''A'', ''B'']" "statements '' ; ;'' = []"
    by (simp_all add: statements_def strip_def lstrip_def rstrip_def isspace_def)
  have a1: "accepts obliging (calls connected) (statements ''A; B;'')"
    and a2: "accepts obliging (calls connected) (statements '' ; ;'')"
    by (simp_all add: st obliging_def)
  have c1: "raises obliging (calls connected @ map Execute (statements ''A; B;'')) Commit = None"
    and c2: "raises obliging (calls connected @ map Execute (statements '' ; ;'')) Commit = None"
    by (simp_all add: obliging_def)
  have b: "\<forall>c \<in> set '' ; ;''. isspace c \<or> c = CHR '';''"
    by (simp add: isspace_def)
  from execute_sql_all_valid [OF a1 c1] execute_sql_all_valid [OF a2 c2] b show ?thesis
    by (simp add: st connected_def)
qed

text \<open>
  Claim C3 as stated fails when the commit raises: every statement has executed without
  raising, yet a rollback is issued after the commit and the value returned is \<open>False\<close>.
\<close>

theorem execute_sql_commit_raises_counterexample:
  "accepts (fails_on Commit ''deferred constraint violated'') (calls connected)
     (statements ''CREATE TABLE t(x int);'')
   \<and> fst (execute_sql (fails_on Commit ''deferred constraint violated'')
            ''CREATE TABLE t(x int);'' connected) = Inr False
   \<and> calls (snd (execute_sql (fails_on Commit ''deferred constraint violated'')
            ''CREATE TABLE t(x int);'' connected))
       = [Execute ''CREATE TABLE t(x int)'', Commit, Rollback]"
proof -
  have st: "statements ''CREATE TABLE t(x int);'' = [''CREATE TABLE t(x int)'']"
    by (simp add: statements_def strip_def lstrip_def rstrip_def isspace_def)
  show ?thesis
    by (simp add: execute_sql_def st fails_on_def connected_def invoke_def
        on_failure_def log_info_def log_error_def emit_def)
qed

section \<open>Facts about the table layout\<close>

lemma init_widths_fold:
  "fold (\<lambda>h m. m(h \<mapsto> length h)) hs m0 k = (if k \<in> set hs then Some (length k) else m0 k)"
  by (induction hs arbitrary: m0) auto

lemma width_of_init: "k \<in> set hs \<Longrightarrow> width_of (init_widths hs) k = length k"
  by (simp add: width_of_def init_widths_def init_widths_fold)

lemma fold_widen:
  "fold (widen r) hs m k =
     (if k \<in> set hs then Some (max (width_of m k) (length (cell r k))) else m k)"
proof (induction hs arbitrary: m)
  case Nil
  then show ?case by simp
next
  case (Cons h hs)
  show ?case
    by (simp add: Cons.IH [of "widen r h m"]) (auto simp: widen_def width_of_def)
qed

lemma width_of_fold_widen:
  "k \<in> set hs \<Longrightarrow> width_of (fold (widen r) hs m) k = max (width_of m k) (length (cell r k))"
  by (simp add: width_of_def [of "fold (widen r) hs m"] fold_widen)

lemma width_of_rows:
  "k \<in> set hs \<Longrightarrow>
   width_of (fold (\<lambda>r m. fold (widen r) hs m) rs m) k
     = fold max (map (\<lambda>r. length (cell r k)) rs) (width_of m k)"
proof (induction rs arbitrary: m)
  case Nil
  then show ?case by simp
next
  case (Cons r rs)
  then show ?case by (simp add: width_of_fold_widen max.commute)
qed

lemma spec_width_fold:
  "spec_width rs k = fold max (map (\<lambda>r. length (cell r k)) rs) (length k)"
proof -
  have "insert (length k) ((\<lambda>r. length (cell r k)) ` set rs)
          = set (length k # map (\<lambda>r. length (cell r k)) rs)"
    by simp
  then show ?thesis
    unfolding spec_width_def by (simp only: Max.set_eq_fold)
qed

lemma col_widths_spec:
  "k \<in> set hs \<Longrightarrow> width_of (col_widths hs rs) k = spec_width rs k"
  by (simp add: col_widths_def width_of_rows width_of_init spec_width_fold)

lemma spec_width_ge_header: "length k \<le> spec_width rs k"
  by (simp add: spec_width_def)

lemma spec_width_ge_cell: "r \<in> set rs \<Longrightarrow> length (cell r k) \<le> spec_width rs k"
  by (simp add: spec_width_def)

lemma length_ljust: "length (ljust s w) = max (length s) w"
  by (simp add: ljust_def)

lemma header_line_spec:
  "header_line hs (col_widths hs rs) = join '' | '' (map (\<lambda>h. ljust h (spec_width rs h)) hs)"
proof -
  have eq: "map (\<lambda>h. ljust h (width_of (col_widths hs rs) h)) hs
          = map (\<lambda>h. ljust h (spec_width rs h)) hs"
    by (rule map_cong) (simp_all add: col_widths_spec)
  show ?thesis unfolding header_line_def eq ..
qed

lemma row_line_spec:
  "row_line hs (col_widths hs rs) r
     = join '' | '' (map (\<lambda>h. ljust (cell r h) (spec_width rs h)) hs)"
proof -
  have eq: "map (\<lambda>h. ljust (cell r h) (width_of (col_widths hs rs) h)) hs
          = map (\<lambda>h. ljust (cell r h) (spec_width rs h)) hs"
    by (rule map_cong) (simp_all add: col_widths_spec)
  show ?thesis unfolding row_line_def eq ..
qed

section \<open>Rendering a result set\<close>

text \<open>
  Claim C4, as the code has it. \<^verbatim>\<open>print_results\<close> tests for the empty result set before
  it looks at the format: for the empty result set it writes the warning
  \<^verbatim>\<open>No results returned\<close> and nothing else, in the format \<^verbatim>\<open>table\<close> and in the format
  \<^verbatim>\<open>json\<close> alike. No table and no JSON text is written.
\<close>

theorem print_results_empty:
  "print_results [] format_type = [Warn ''No results returned'']"
  by (simp add: print_results_def)

theorem print_results_empty_witness:
  "print_results [] ''table'' = [Warn ''No results returned'']
   \<and> print_results [] ''json'' = [Warn ''No results returned'']"
  using print_results_empty [of "''table''"] print_results_empty [of "''json''"] by simp

text \<open>
  Claim C4 as stated fails for the format \<^verbatim>\<open>json\<close>: the empty result set is not written
  as an empty JSON array, the warning is written instead.
\<close>

theorem print_results_empty_json_counterexample:
  "print_results [] ''json'' \<noteq> [PrintJson []]
   \<and> print_results [] ''json'' = [Warn ''No results returned'']"
  by (simp add: print_results_def)

text \<open>
  Claim C5. For every result set with at least one row and every format other than
  \<^verbatim>\<open>json\<close> (so for \<^verbatim>\<open>table\<close>), the columns are the keys of the first row, the
  width of a column is the maximum of the length of its header and of the string lengths
  of its cells, and \<^verbatim>\<open>print_results\<close> writes: the headers, each left-justified to the
  width of its column, joined with \<^verbatim>\<open> | \<close> (after an empty line); a rule of \<open>-\<close> as long
  as the header line; one line per row, its cells left-justified and joined in the same
  way; and the line \<^verbatim>\<open><N> row(s) returned\<close> with the number of rows (between two empty
  lines). Every padded header and cell is exactly as long as the width of its column.
  The two rows of the example give the header \<^verbatim>\<open>id | name\<close>, a rule of nine dashes, two
  data lines and \<^verbatim>\<open>2 row(s) returned\<close>.
\<close>

theorem print_results_table:
  assumes "results = first # rest" and "format_type \<noteq> ''json''"
  shows "print_results results format_type =
           [Print (newline # join '' | '' (map (\<lambda>h. ljust h (spec_width results h)) (keys first))),
            Print (replicate
                     (length (join '' | '' (map (\<lambda>h. ljust h (spec_width results h)) (keys first))))
                     (CHR ''-''))]
           @ map (\<lambda>r. Print (join '' | ''
                    (map (\<lambda>h. ljust (cell r h) (spec_width results h)) (keys first)))) results
           @ [Print ([newline] @ show_nat (length results) @ '' row(s) returned'' @ [newline])]
     \<and> (\<forall>h \<in> set (keys first).
           ljust h (spec_width results h) = h @ replicate (spec_width results h - length h) (CHR '' '')
           \<and> length (ljust h (spec_width results h)) = spec_width results h
           \<and> (\<forall>r \<in> set results.
                 length (ljust (cell r h) (spec_width results h)) = spec_width results h))
     \<and> print_results two_rows ''table''
         = [Print (newline # ''id | name''),
            Print ''---------'',
            Print ''1  | ann '',
            Print ''2  | bob '',
            Print ([newline] @ ''2 row(s) returned'' @ [newline])]"
proof (intro conjI)
  show "print_results results format_type =
           [Print (newline # join '' | '' (map (\<lambda>h. ljust h (spec_width results h)) (keys first))),
            Print (replicate
                     (length (join '' | '' (map (\<lambda>h. ljust h (spec_width results h)) (keys first))))
                     (CHR ''-''))]
           @ map (\<lambda>r. Print (join '' | ''
                    (map (\<lambda>h. ljust (cell r h) (spec_width results h)) (keys first)))) results
           @ [Print ([newline] @ show_nat (length results) @ '' row(s) returned'' @ [newline])]"
    using assms(2)
    by (simp add: print_results_def assms(1) [symmetric] Let_def header_line_spec row_line_spec
        split: list.splits)
      (simp add: assms(1))
  show "\<forall>h \<in> set (keys first).
           ljust h (spec_width results h) = h @ replicate (spec_width results h - length h) (CHR '' '')
           \<and> length (ljust h (spec_width results h)) = spec_width results h
           \<and> (\<forall>r \<in> set results.
                 length (ljust (cell r h) (spec_width results h)) = spec_width results h)"
    using spec_width_ge_header spec_width_ge_cell
    by (auto simp: length_ljust max_def ljust_def)
  show "print_results two_rows ''table''
         = [Print (newline # ''id | name''),
            Print ''---------'',
            Print ''1  | ann '',
            Print ''2  | bob '',
            Print ([newline] @ ''2 row(s) returned'' @ [newline])]"
    by (simp add: print_results_def two_rows_def keys_def header_line_def row_line_def
        col_widths_def init_widths_def widen_def width_of_def cell_def get_def ljust_def
        str_int_def show_nat.simps digit_def)
qed

theorem print_results_table_witness:
  "''id'' \<in> set (keys [(''id'', PInt 1), (''name'', PStr ''ann'')])
   \<and> length (ljust ''id'' (spec_width two_rows ''id'')) = spec_width two_rows ''id''
   \<and> length (ljust (cell [(''id'', PInt 2), (''name'', PStr ''bob'')] ''id'') (spec_width two_rows ''id''))
       = spec_width two_rows ''id''
   \<and> hd (print_results two_rows ''table'')
       = Print (newline # join '' | '' (map (\<lambda>h. ljust h (spec_width two_rows h)) [''id'', ''name'']))"
proof -
  have h1: "two_rows = [(''id'', PInt 1), (''name'', PStr ''ann'')]
                        # [[(''id'', PInt 2), (''name'', PStr ''bob'')]]"
    by (simp add: two_rows_def)
  have h2: "''table'' \<noteq> ''json''" by simp
  have k: "''id'' \<in> set (keys [(''id'', PInt 1), (''name'', PStr ''ann'')])"
    by (simp add: keys_def)
  have r: "[(''id'', PInt 2), (''name'', PStr ''bob'')] \<in> set two_rows"
    by (simp add: two_rows_def)
  note t = print_results_table [OF h1 h2]
  from t have a: "\<forall>h \<in> set (keys [(''id'', PInt 1), (''name'', PStr ''ann'')]).
           length (ljust h (spec_width two_rows h)) = spec_width two_rows h
           \<and> (\<forall>r \<in> set two_rows.
                 length (ljust (cell r h) (spec_width two_rows h)) = spec_width two_rows h)"
    by blast
  from t have b: "hd (print_results two_rows ''table'')
       = Print (newline # join '' | '' (map (\<lambda>h. ljust h (spec_width two_rows h))
                  (keys [(''id'', PInt 1), (''name'', PStr ''ann'')])))"
    by simp
  from a k r b show ?thesis by (auto simp: keys_def)
qed

section \<open>Running a query\<close>

text \<open>
  Claim C7. When the cursor raises while it executes the query, \<^verbatim>\<open>execute_query\<close> (of
  either reader) catches the exception, logs it and returns the empty list; nothing
  propagates, nothing else is called. A query that succeeds with zero rows returns the
  empty list too, so the two cannot be told apart by the value returned.
\<close>

theorem execute_query_swallows_failure:
  assumes "raises drv (calls s) (Execute query) = Some e"
    and "raises drv' (calls s) (Execute query) = None"
    and "raises drv' (calls s @ [Execute query]) Fetchall = None"
    and "fetched drv' (calls s @ [Execute query]) = []"
  shows "PostgresReader_execute_query drv query s
           = ([], s\<lparr>calls := calls s @ [Execute query],
                    console := console s @ [Error (''Query execution failed: '' @ e)]\<rparr>)
     \<and> MySQLReader_execute_query drv query s
           = ([], s\<lparr>calls := calls s @ [Execute query],
                    console := console s @ [Error (''Query execution failed: '' @ e)]\<rparr>)
     \<and> fst (PostgresReader_execute_query drv' query s) = fst (PostgresReader_execute_query drv query s)
     \<and> fst (MySQLReader_execute_query drv' query s) = fst (MySQLReader_execute_query drv query s)"
  using assms
  by (simp add: PostgresReader_execute_query_def MySQLReader_execute_query_def invoke_def
      query_failed_def log_error_def emit_def split: option.splits)

theorem execute_query_swallows_failure_witness:
  "fst (PostgresReader_execute_query (fails_on (Execute ''SELECT * FROM missing'') ''no such table'')
         ''SELECT * FROM missing'' connected) = []
   \<and> fst (MySQLReader_execute_query (fails_on (Execute ''SELECT * FROM missing'') ''no such table'')
         ''SELECT * FROM missing'' connected) = []
   \<and> fst (PostgresReader_execute_query obliging ''SELECT * FROM missing'' connected) = []
   \<and> console (snd (PostgresReader_execute_query
         (fails_on (Execute ''SELECT * FROM missing'') ''no such table'')
         ''SELECT * FROM missing'' connected))
       = [Error ''Query execution failed: no such table'']"
proof -
  let ?drv = "fails_on (Execute ''SELECT * FROM missing'') ''no such table''"
  have h1: "raises ?drv (calls connected) (Execute ''SELECT * FROM missing'') = Some ''no such table''"
    by (simp add: fails_on_def)
  have h2: "raises obliging (calls connected) (Execute ''SELECT * FROM missing'') = None"
    and h3: "raises obliging (calls connected @ [Execute ''SELECT * FROM missing'']) Fetchall = None"
    and h4: "fetched obliging (calls connected @ [Execute ''SELECT * FROM missing'']) = []"
    by (simp_all add: obliging_def)
  from execute_query_swallows_failure [OF h1 h2 h3 h4] show ?thesis
    by (simp add: connected_def)
qed

text \<open>
  Claim C10, as the code has it. The test for a query is made after the cursor has
  executed the statement. When that call did not raise: the statement counts as a query
  iff its trimmed text, in upper case, starts with \<^verbatim>\<open>SELECT\<close>; for a query the rows are
  fetched and no commit is issued; for every other statement exactly one commit is issued
  after the statement and the empty list is returned. So a statement that yields rows but
  starts with a comment or with \<^verbatim>\<open>WITH\<close> is committed and reports no rows.
\<close>

theorem execute_query_classifies:
  assumes "raises drv (calls s) (Execute query) = None"
  shows "is_select query = startswith (upper (strip query)) ''SELECT''
     \<and> calls (snd (PostgresReader_execute_query drv query s))
         = calls s @ [Execute query, if is_select query then Fetchall else Commit]
     \<and> calls (snd (MySQLReader_execute_query drv query s))
         = calls s @ [Execute query, if is_select query then Fetchall else Commit]
     \<and> (\<not> is_select query \<longrightarrow>
          fst (PostgresReader_execute_query drv query s) = []
          \<and> fst (MySQLReader_execute_query drv query s) = [])
     \<and> (is_select query \<and> raises drv (calls s @ [Execute query]) Fetchall = None \<longrightarrow>
          fst (PostgresReader_execute_query drv query s) = fetched drv (calls s @ [Execute query])
          \<and> fst (MySQLReader_execute_query drv query s) = fetched drv (calls s @ [Execute query]))
     \<and> is_select ''  select 1''
     \<and> \<not> is_select ''WITH t AS (SELECT 1) SELECT * FROM t''
     \<and> \<not> is_select (''-- all users'' @ [newline] @ ''SELECT * FROM users'')"
proof -
  have ex: "is_select ''  select 1''"
    "\<not> is_select ''WITH t AS (SELECT 1) SELECT * FROM t''"
    "\<not> is_select (''-- all users'' @ [newline] @ ''SELECT * FROM users'')"
    by (simp_all add: newline_def is_select_def startswith_def upper_def upper_char_def
        strip_def lstrip_def rstrip_def isspace_def)
  have run: "calls (snd (PostgresReader_execute_query drv query s))
         = calls s @ [Execute query, if is_select query then Fetchall else Commit]"
    "calls (snd (MySQLReader_execute_query drv query s))
         = calls s @ [Execute query, if is_select query then Fetchall else Commit]"
    "\<not> is_select query \<longrightarrow>
          fst (PostgresReader_execute_query drv query s) = []
          \<and> fst (MySQLReader_execute_query drv query s) = []"
    "is_select query \<and> raises drv (calls s @ [Execute query]) Fetchall = None \<longrightarrow>
          fst (PostgresReader_execute_query drv query s) = fetched drv (calls s @ [Execute query])
          \<and> fst (MySQLReader_execute_query drv query s) = fetched drv (calls s @ [Execute query])"
    using assms
    by (simp_all add: PostgresReader_execute_query_def MySQLReader_execute_query_def invoke_def
        query_failed_def log_error_def emit_def split: option.splits)
  show ?thesis using ex run by (simp add: is_select_def)
qed

theorem execute_query_classifies_witness:
  "\<not> is_select ''WITH t AS (SELECT 1) SELECT * FROM t''
   \<and> fst (PostgresReader_execute_query obliging ''WITH t AS (SELECT 1) SELECT * FROM t'' connected) = []
   \<and> calls (snd (MySQLReader_execute_query obliging ''WITH t AS (SELECT 1) SELECT * FROM t'' connected))
       = [Execute ''WITH t AS (SELECT 1) SELECT * FROM t'', Commit]
   \<and> calls (snd (PostgresReader_execute_query obliging ''  select 1'' connected))
       = [Execute ''  select 1'', Fetchall]"
proof -
  have h: "raises obliging (calls connected) (Execute q) = None" for q
    by (simp add: obliging_def)
  have f: "raises obliging (calls connected @ [Execute ''  select 1'']) Fetchall = None"
    by (simp add: obliging_def)
  note w = execute_query_classifies [OF h [of "''WITH t AS (SELECT 1) SELECT * FROM t''"]]
  note q = execute_query_classifies [OF h [of "''  select 1''"]]
  from w q f show ?thesis by (simp add: connected_def)
qed

text \<open>
  Claim C10 as stated fails when the cursor raises on the statement: the statement does
  not start with \<^verbatim>\<open>SELECT\<close>, yet no commit is issued (the empty list is returned).
\<close>

theorem execute_query_no_commit_counterexample:
  "\<not> is_select ''DROP TABLE missing''
   \<and> calls (snd (PostgresReader_execute_query
        (fails_on (Execute ''DROP TABLE missing'') ''no such table'') ''DROP TABLE missing'' connected))
       = [Execute ''DROP TABLE missing'']
   \<and> calls (snd (MySQLReader_execute_query
        (fails_on (Execute ''DROP TABLE missing'') ''no such table'') ''DROP TABLE missing'' connected))
       = [Execute ''DROP TABLE missing'']"
proof -
  have "\<not> is_select ''DROP TABLE missing''"
    by (simp add: is_select_def startswith_def upper_def upper_char_def
        strip_def lstrip_def rstrip_def isspace_def)
  then show ?thesis
    by (simp add: PostgresReader_execute_query_def MySQLReader_execute_query_def invoke_def
        query_failed_def log_error_def emit_def fails_on_def connected_def)
qed

section \<open>Facts about the calls of the operations\<close>

lemma invoke_eq [simp]:
  "invoke drv c s = (r, s1) \<longleftrightarrow> r = raises drv (calls s) c \<and> s1 = s\<lparr>calls := calls s @ [c]\<rparr>"
  by (auto simp: invoke_def)

lemma quiet_simps [simp]:
  "quiet []"
  "quiet (c # cs) = (c \<noteq> CloseCursor \<and> c \<noteq> CloseConnection \<and> quiet cs)"
  "quiet (xs @ ys) = (quiet xs \<and> quiet ys)"
  by (auto simp: quiet_def)

lemma carries_on_refl [simp]: "carries_on s s"
  by (simp add: carries_on_def)

lemma carries_on_trans: "carries_on a b \<Longrightarrow> carries_on b c \<Longrightarrow> carries_on a c"
  by (auto simp: carries_on_def)

lemma carries_on_emit [simp]: "carries_on s (emit out s')  = carries_on s s'"
  by (simp add: carries_on_def)

lemma carries_on_log [simp]:
  "carries_on s (log_info m s') = carries_on s s'"
  "carries_on s (log_warn m s') = carries_on s s'"
  "carries_on s (log_error m s') = carries_on s s'"
  "carries_on s (log_success m s') = carries_on s s'"
  by (simp_all add: log_info_def log_warn_def log_error_def log_success_def)

lemma carries_on_emit_all [simp]: "carries_on s (emit_all outs s') = carries_on s s'"
  by (simp add: carries_on_def emit_all_def)

lemma carries_on_call:
  "c \<noteq> CloseCursor \<Longrightarrow> c \<noteq> CloseConnection \<Longrightarrow> carries_on s s' \<Longrightarrow>
   carries_on s (s'\<lparr>calls := calls s' @ [c]\<rparr>)"
  by (auto simp: carries_on_def)

lemma run_statements_Cons:
  "run_statements drv (q # qs) s =
     (if q = [] then run_statements drv qs s
      else (case raises drv (calls s) (Execute q) of
              Some e \<Rightarrow> (Some e, (log_info (''Executing: '' @ take 80 q @ ''...'') s)
                                   \<lparr>calls := calls s @ [Execute q]\<rparr>)
            | None \<Rightarrow> run_statements drv qs
                        ((log_info (''Executing: '' @ take 80 q @ ''...'') s)
                           \<lparr>calls := calls s @ [Execute q]\<rparr>)))"
  by (simp add: invoke_def log_info_def split: option.splits)

lemma carries_on_run_statements: "carries_on s (snd (run_statements drv qs s))"
proof (induction qs arbitrary: s)
  case Nil
  then show ?case by simp
next
  case (Cons q qs)
  let ?s1 = "(log_info (''Executing: '' @ take 80 q @ ''...'') s)\<lparr>calls := calls s @ [Execute q]\<rparr>"
  have a: "carries_on s ?s1"
    by (simp add: carries_on_def log_info_def)
  have b: "carries_on s (snd (run_statements drv qs ?s1))"
    using a Cons.IH [of ?s1] by (rule carries_on_trans)
  show ?case
    unfolding run_statements_Cons
    using a b Cons.IH [of s] by (simp split: option.splits)
qed

lemma snd_on_failure:
  "snd (on_failure drv e s) = (log_error (''Failed to execute SQL: '' @ e) s)\<lparr>calls := calls s @ [Rollback]\<rparr>"
  by (simp add: on_failure_def log_error_def split: prod.splits option.splits)

lemma carries_on_on_failure: "carries_on s s' \<Longrightarrow> carries_on s (snd (on_failure drv e s'))"
  by (auto simp: snd_on_failure carries_on_def log_error_def)

lemma carries_on_execute_sql: "carries_on s (snd (execute_sql drv sql s))"
proof -
  obtain r s1 where rs: "run_statements drv (statements sql) s = (r, s1)"
    by (cases "run_statements drv (statements sql) s")
  have a: "carries_on s s1"
    using carries_on_run_statements [of s drv "statements sql"] rs by simp
  then have b: "carries_on s (s1\<lparr>calls := calls s1 @ [Commit]\<rparr>)"
    by (intro carries_on_call) simp_all
  show ?thesis
  proof (cases r)
    case (Some e)
    then show ?thesis using a by (simp add: execute_sql_def rs carries_on_on_failure)
  next
    case None
    show ?thesis
    proof (cases "raises drv (calls s1) Commit")
      case None
      with \<open>r = None\<close> b show ?thesis by (simp add: execute_sql_def rs invoke_def)
    next
      case (Some e)
      with \<open>r = None\<close> carries_on_on_failure [OF b, of drv e] show ?thesis
        by (simp add: execute_sql_def rs invoke_def)
    qed
  qed
qed

lemma carries_on_create_examples: "carries_on s (snd (create_examples env drv t tables s))"
proof (induction tables arbitrary: s)
  case Nil
  then show ?case by simp
next
  case (Cons table tables)
  show ?case
  proof (cases "map_of (EXAMPLE_SCHEMAS env) table")
    case None
    let ?s1 = "log_warn (''Unknown example table: '' @ table) s"
    have "carries_on s ?s1" by simp
    then have "carries_on s (snd (create_examples env drv t tables ?s1))"
      using Cons.IH [of ?s1] by (rule carries_on_trans)
    with None show ?thesis by simp
  next
    case (Some schemas)
    let ?s0 = "log_info (''Creating example table: '' @ table) s"
    obtain r s1 where ex: "execute_sql drv (schemas t) ?s0 = (r, s1)"
      by (cases "execute_sql drv (schemas t) ?s0")
    have "carries_on ?s0 s1"
      using carries_on_execute_sql [of ?s0 drv "schemas t"] ex by simp
    moreover have "carries_on s ?s0" by simp
    ultimately have a: "carries_on s s1" by (rule carries_on_trans [rotated])
    then have b: "carries_on s (snd (create_examples env drv t tables s1))"
      using Cons.IH [of s1] by (rule carries_on_trans)
    show ?thesis using Some ex a b by (cases r) simp_all
  qed
qed

lemma snd_propagate:
  "snd (case p of (Inl e, s1) \<Rightarrow> (Some e, s1) | (Inr ok, s1) \<Rightarrow> (None, s1)) = snd p"
  by (auto split: prod.splits sum.splits)

lemma carries_on_create_operation: "carries_on s (snd (create_operation env drv a s))"
proof -
  have a: "carries_on s (snd (execute_sql drv sql (log_info m s)))" for sql m
    using carries_on_trans [OF _ carries_on_execute_sql [of "log_info m s" drv sql], of s]
    by simp
  show ?thesis
    by (simp add: create_operation_def snd_propagate a carries_on_create_examples
        split: option.splits file_status.splits)
qed

lemma carries_on_execute_query:
  "carries_on s (snd (PostgresReader_execute_query drv query s))"
  "carries_on s (snd (MySQLReader_execute_query drv query s))"
  by (auto simp: PostgresReader_execute_query_def MySQLReader_execute_query_def query_failed_def
      invoke_def carries_on_def log_error_def split: option.splits)

lemma execute_query_carries_on: "execute_query t drv query s = (r, s1) \<Longrightarrow> carries_on s s1"
  using carries_on_execute_query [of s drv query]
  by (cases t) (auto simp: execute_query_def)

lemma snd_list_tables:
  "snd (list_tables t drv s) =
     (case t of
        Postgres \<Rightarrow> snd (PostgresReader_execute_query drv postgres_list_tables_query s)
      | MySQL \<Rightarrow> snd (MySQLReader_execute_query drv ''SHOW TABLES;'' s))"
  by (simp add: list_tables_def split: db_type.splits prod.splits list.splits)

lemma list_tables_carries_on: "list_tables t drv s = (r, s1) \<Longrightarrow> carries_on s s1"
proof -
  assume e: "list_tables t drv s = (r, s1)"
  have "carries_on s (snd (list_tables t drv s))"
    by (simp add: snd_list_tables carries_on_execute_query split: db_type.splits)
  with e show ?thesis by simp
qed

lemma describe_table_carries_on: "describe_table t drv name s = (r, s1) \<Longrightarrow> carries_on s s1"
proof -
  assume e: "describe_table t drv name s = (r, s1)"
  have "carries_on s (snd (describe_table t drv name s))"
    by (simp add: describe_table_def carries_on_execute_query split: db_type.splits)
  with e show ?thesis by simp
qed

lemma carries_on_read_operation: "carries_on s (snd (read_operation drv config a s))"
  by (auto simp: read_operation_def
      split: option.splits prod.splits sum.splits if_splits
      dest: list_tables_carries_on describe_table_carries_on execute_query_carries_on)

lemma connect_raises:
  "raises drv (calls s) (Connect t cfg) = Some e \<Longrightarrow>
   connect t drv cfg s =
     (Some (SystemExit 1),
      log_error (''Failed to connect to '' @ db_label t @ '': '' @ e)
        (s\<lparr>calls := calls s @ [Connect t cfg]\<rparr>))"
  by (simp add: connect_def split: prod.splits)

lemma connect_left:
  assumes "cursor s = None"
  shows "(\<exists>new. calls (snd (connect t drv cfg s)) = calls s @ new \<and> quiet new)
     \<and> (cursor (snd (connect t drv cfg s)) \<noteq> None \<longrightarrow> connection (snd (connect t drv cfg s)) \<noteq> None)"
  using assms
  by (auto simp: connect_def log_error_def log_info_def split: prod.splits option.splits)

lemma and_then_snd:
  "snd (and_then r k) = (case fst r of Some e \<Rightarrow> snd r | None \<Rightarrow> snd (k (snd r)))"
  by (auto simp: and_then_def split: prod.splits option.splits)

lemma body_left:
  assumes "cursor s = None" and k: "\<And>s1. carries_on s1 (snd (k s1))"
  shows "(\<exists>new. calls (snd (and_then (connect t drv cfg s) k)) = calls s @ new \<and> quiet new)
     \<and> (cursor (snd (and_then (connect t drv cfg s) k)) \<noteq> None
          \<longrightarrow> connection (snd (and_then (connect t drv cfg s) k)) \<noteq> None)"
proof -
  let ?s1 = "snd (connect t drv cfg s)"
  from connect_left [OF assms(1), of t drv cfg]
  obtain new where c: "calls ?s1 = calls s @ new" "quiet new"
    and h: "cursor ?s1 \<noteq> None \<longrightarrow> connection ?s1 \<noteq> None"
    by auto
  from k [of ?s1] obtain new' where c': "calls (snd (k ?s1)) = calls ?s1 @ new'" "quiet new'"
    and h': "connection (snd (k ?s1)) = connection ?s1" "cursor (snd (k ?s1)) = cursor ?s1"
    by (auto simp: carries_on_def)
  have "calls (snd (k ?s1)) = calls s @ (new @ new')" "quiet (new @ new')"
    using c c' by simp_all
  then have e: "\<exists>n. calls (snd (k ?s1)) = calls s @ n \<and> quiet n" by blast
  show ?thesis
    using c h e h' by (auto simp: and_then_snd split: option.splits)
qed

lemma try_finally_snd: "snd (try_finally body cleanup s) = snd (cleanup (snd (body s)))"
  by (simp add: try_finally_def split: prod.splits option.splits)

lemma try_finally_fst:
  "fst (try_finally body cleanup s) =
     (case fst (cleanup (snd (body s))) of Some e \<Rightarrow> Some e | None \<Rightarrow> fst (body s))"
  by (simp add: try_finally_def split: prod.splits option.splits)

lemma close_unset: "cursor s = None \<Longrightarrow> connection s = None \<Longrightarrow> close drv s = (None, s)"
  by (simp add: close_def)

lemma close_calls:
  "calls (snd (close drv s)) =
     calls s @ (if cursor s \<noteq> None then [CloseCursor] else [])
             @ (if connection s \<noteq> None
                   \<and> (cursor s = None \<or> raises drv (calls s) CloseCursor = None)
                then [CloseConnection] else [])"
  by (auto simp: close_def invoke_def log_info_def split: option.splits)

lemma close_cursor_raises:
  "cursor s \<noteq> None \<Longrightarrow> raises drv (calls s) CloseCursor = Some e \<Longrightarrow>
   close drv s = (Some (Exception e), s\<lparr>calls := calls s @ [CloseCursor]\<rparr>)"
  by (auto simp: close_def split: prod.splits option.splits)

lemma override_layered:
  "override a (getenv vars key dflt)
     = spec_layered dflt (vars key) (if a = Some [] then None else a)"
  by (auto simp: override_def getenv_def spec_layered_def split: option.splits)

lemma show_tables_not_select: "\<not> is_select ''SHOW TABLES;''"
  by (simp add: is_select_def startswith_def upper_def upper_char_def
      strip_def lstrip_def rstrip_def isspace_def)

lemma mysql_list_tables_reports_nothing: "fst (list_tables MySQL drv s) = Inr []"
  by (simp add: list_tables_def MySQLReader_execute_query_def show_tables_not_select invoke_def
      query_failed_def split: option.splits)

section \<open>Configuration\<close>

lemma body_first_call:
  assumes k: "\<And>s1. carries_on s1 (snd (k s1))"
  shows "\<exists>rest. calls (snd (and_then (connect t drv cfg s) k)) = calls s @ Connect t cfg # rest"
proof -
  let ?s1 = "snd (connect t drv cfg s)"
  have c: "\<exists>rest. calls ?s1 = calls s @ Connect t cfg # rest"
    by (auto simp: connect_def invoke_def log_error_def log_info_def split: option.splits)
  then obtain rest where r: "calls ?s1 = calls s @ Connect t cfg # rest" by blast
  from k [of ?s1] obtain new where "calls (snd (k ?s1)) = calls ?s1 @ new"
    by (auto simp: carries_on_def)
  with r have "calls (snd (k ?s1)) = calls s @ Connect t cfg # (rest @ new)" by simp
  then have "\<exists>rest. calls (snd (k ?s1)) = calls s @ Connect t cfg # rest" by blast
  with c show ?thesis by (auto simp: and_then_snd split: option.splits)
qed

text \<open>
  Claim C8, as the code has it. A flag is applied under \<^verbatim>\<open>if args.x:\<close>, so a flag
  given with the empty value is not applied: it counts as absent. For each of the five
  fields, the value of the configuration is the built-in default unless the matching
  \<^verbatim>\<open>DB_*\<close> variable is set, and a flag given with a non-empty value overrides both
  (the port's default depends on \<^verbatim>\<open>--type\<close>). With no flag the configuration is the
  copy of the defaults. The configuration built this way is the one the connection is
  opened with: the first call of the \<^verbatim>\<open>try\<close> block of either \<^verbatim>\<open>main\<close> is the
  driver's \<^verbatim>\<open>connect\<close> with it.
\<close>

theorem get_configuration_layered:
  "db_name (get_configuration vars a)
     = spec_layered ''myapp_db'' (vars ''DB_NAME'')
         (if arg_name a = Some [] then None else arg_name a)
   \<and> db_user (get_configuration vars a)
     = spec_layered ''myapp_user'' (vars ''DB_USER'')
         (if arg_user a = Some [] then None else arg_user a)
   \<and> db_password (get_configuration vars a)
     = spec_layered ''changeme123'' (vars ''DB_PASSWORD'')
         (if arg_password a = Some [] then None else arg_password a)
   \<and> db_host (get_configuration vars a)
     = spec_layered ''localhost'' (vars ''DB_HOST'')
         (if arg_host a = Some [] then None else arg_host a)
   \<and> db_port (get_configuration vars a)
     = spec_layered (case arg_type a of Postgres \<Rightarrow> ''5432'' | MySQL \<Rightarrow> ''3306'')
         (vars ''DB_PORT'') (if arg_port a = Some [] then None else arg_port a)
   \<and> (arg_name a = None \<and> arg_user a = None \<and> arg_password a = None
        \<and> arg_host a = None \<and> arg_port a = None \<longrightarrow>
      get_configuration vars a = DEFAULT_CONFIG vars (arg_type a))
   \<and> (\<exists>rest. calls (create_left env drv c s0)
          = calls s0 @ Connect (arg_type c) (get_configuration (environ env) c) # rest)
   \<and> (\<exists>rest. calls (read_left env drv r s0)
          = calls s0 @ Connect (arg_type r) (get_configuration (environ env) r) # rest)"
proof -
  have name: "db_name (get_configuration vars a)
     = spec_layered ''myapp_db'' (vars ''DB_NAME'')
         (if arg_name a = Some [] then None else arg_name a)"
    by (simp add: get_configuration_def DEFAULT_CONFIG_def override_layered)
  have user: "db_user (get_configuration vars a)
     = spec_layered ''myapp_user'' (vars ''DB_USER'')
         (if arg_user a = Some [] then None else arg_user a)"
    by (simp add: get_configuration_def DEFAULT_CONFIG_def override_layered)
  have password: "db_password (get_configuration vars a)
     = spec_layered ''changeme123'' (vars ''DB_PASSWORD'')
         (if arg_password a = Some [] then None else arg_password a)"
    by (simp add: get_configuration_def DEFAULT_CONFIG_def override_layered)
  have host: "db_host (get_configuration vars a)
     = spec_layered ''localhost'' (vars ''DB_HOST'')
         (if arg_host a = Some [] then None else arg_host a)"
    by (simp add: get_configuration_def DEFAULT_CONFIG_def override_layered)
  have port: "db_port (get_configuration vars a)
     = spec_layered (case arg_type a of Postgres \<Rightarrow> ''5432'' | MySQL \<Rightarrow> ''3306'')
         (vars ''DB_PORT'') (if arg_port a = Some [] then None else arg_port a)"
    by (simp add: get_configuration_def DEFAULT_CONFIG_def override_layered)
  have copy: "arg_name a = None \<and> arg_user a = None \<and> arg_password a = None
        \<and> arg_host a = None \<and> arg_port a = None \<longrightarrow>
      get_configuration vars a = DEFAULT_CONFIG vars (arg_type a)"
    by (simp add: get_configuration_def DEFAULT_CONFIG_def override_def)
  have c: "\<exists>rest. calls (create_left env drv c s0)
          = calls s0 @ Connect (arg_type c) (get_configuration (environ env) c) # rest"
    unfolding create_left_def create_body_def
    using body_first_call [of "create_operation env drv c" "arg_type c" drv
        "get_configuration (environ env) c" "s0\<lparr>connection := None, cursor := None\<rparr>"]
      carries_on_create_operation
    by simp
  have r: "\<exists>rest. calls (read_left env drv r s0)
          = calls s0 @ Connect (arg_type r) (get_configuration (environ env) r) # rest"
    unfolding read_left_def read_body_def
    using body_first_call [of "read_operation drv (get_configuration (environ env) r) r"
        "arg_type r" drv "get_configuration (environ env) r"
        "s0\<lparr>connection := None, cursor := None\<rparr>"]
      carries_on_read_operation
    by simp
  from name user password host port copy c r show ?thesis by blast
qed

theorem get_configuration_layered_witness:
  "get_configuration [''DB_NAME'' \<mapsto> ''envdb'', ''DB_PASSWORD'' \<mapsto> ''envpw'']
     ((no_flags Postgres)\<lparr>arg_name := Some ''flagdb'', arg_password := Some ''''\<rparr>)
     = \<lparr>db_name = ''flagdb'', db_user = ''myapp_user'', db_password = ''envpw'',
        db_host = ''localhost'', db_port = ''5432''\<rparr>
   \<and> arg_name (no_flags MySQL) = None \<and> arg_user (no_flags MySQL) = None
   \<and> arg_password (no_flags MySQL) = None \<and> arg_host (no_flags MySQL) = None
   \<and> arg_port (no_flags MySQL) = None
   \<and> get_configuration [''DB_NAME'' \<mapsto> ''envdb'', ''DB_PASSWORD'' \<mapsto> ''envpw'']
        (no_flags MySQL)
     = DEFAULT_CONFIG [''DB_NAME'' \<mapsto> ''envdb'', ''DB_PASSWORD'' \<mapsto> ''envpw''] MySQL"
proof -
  let ?vars = "[''DB_NAME'' \<mapsto> ''envdb'', ''DB_PASSWORD'' \<mapsto> ''envpw'']"
  let ?a = "(no_flags Postgres)\<lparr>arg_name := Some ''flagdb'', arg_password := Some ''''\<rparr>"
  note t = get_configuration_layered [of ?vars ?a]
  have "db_name (get_configuration ?vars ?a) = ''flagdb''"
    and "db_user (get_configuration ?vars ?a) = ''myapp_user''"
    and "db_password (get_configuration ?vars ?a) = ''envpw''"
    and "db_host (get_configuration ?vars ?a) = ''localhost''"
    and "db_port (get_configuration ?vars ?a) = ''5432''"
    using t by (simp_all add: spec_layered_def no_flags_def)
  then have flags: "get_configuration ?vars ?a
     = \<lparr>db_name = ''flagdb'', db_user = ''myapp_user'', db_password = ''envpw'',
        db_host = ''localhost'', db_port = ''5432''\<rparr>"
    by (cases "get_configuration ?vars ?a") simp
  have none: "arg_name (no_flags MySQL) = None" "arg_user (no_flags MySQL) = None"
    "arg_password (no_flags MySQL) = None" "arg_host (no_flags MySQL) = None"
    "arg_port (no_flags MySQL) = None" "arg_type (no_flags MySQL) = MySQL"
    by (simp_all add: no_flags_def)
  from get_configuration_layered [of ?vars "no_flags MySQL"] none
  have "get_configuration ?vars (no_flags MySQL) = DEFAULT_CONFIG ?vars MySQL"
    by simp
  with flags none show ?thesis by simp
qed

text \<open>
  Claim C8 as stated fails for a flag given with the empty value: \<^verbatim>\<open>--password ""\<close>
  is explicit, yet the default password is kept.
\<close>

theorem empty_flag_counterexample:
  "db_password (get_configuration Map.empty ((no_flags MySQL)\<lparr>arg_password := Some ''''\<rparr>))
     = ''changeme123''
   \<and> spec_layered ''changeme123'' None (Some '''') = ''''"
  by (simp add: get_configuration_def DEFAULT_CONFIG_def getenv_def override_def no_flags_def
      spec_layered_def)

section \<open>Releasing the connection\<close>

text \<open>
  What the two \<^verbatim>\<open>main\<close> functions do guarantee. Once \<^verbatim>\<open>main\<close> (of
  create_schema.py or of read_database.py) has entered its \<^verbatim>\<open>try\<close> block,
  \<^verbatim>\<open>close\<close> runs in the state in which the block is left, however it is left. Nothing
  is closed inside the block, and a cursor is set only when a connection is. The calls
  that \<^verbatim>\<open>close\<close> makes are given for every state; nothing is done when neither handle
  is set. When the driver's \<^verbatim>\<open>connect\<close> raises, the run ends with \<^verbatim>\<open>sys.exit(1)\<close>
  after that one call.
\<close>

theorem main_closes_on_every_exit:
  assumes "available env (arg_type a)" and "\<not> arg_generate_example a"
    and "available env (arg_type b)"
  shows "snd (create_schema_main env drv a s0) = snd (close drv (create_left env drv a s0))
     \<and> snd (read_database_main env drv b s0) = snd (close drv (read_left env drv b s0))
     \<and> (\<exists>new. calls (create_left env drv a s0) = calls s0 @ new \<and> quiet new)
     \<and> (\<exists>new. calls (read_left env drv b s0) = calls s0 @ new \<and> quiet new)
     \<and> (cursor (create_left env drv a s0) \<noteq> None \<longrightarrow> connection (create_left env drv a s0) \<noteq> None)
     \<and> (cursor (read_left env drv b s0) \<noteq> None \<longrightarrow> connection (read_left env drv b s0) \<noteq> None)
     \<and> (\<forall>s. calls (snd (close drv s)) =
               calls s @ (if cursor s \<noteq> None then [CloseCursor] else [])
                       @ (if connection s \<noteq> None
                             \<and> (cursor s = None \<or> raises drv (calls s) CloseCursor = None)
                          then [CloseConnection] else [])
            \<and> (cursor s = None \<and> connection s = None \<longrightarrow> close drv s = (None, s)))
     \<and> (\<forall>e. raises drv (calls s0) (Connect (arg_type a) (get_configuration (environ env) a)) = Some e \<longrightarrow>
            fst (create_schema_main env drv a s0) = Some (SystemExit 1)
            \<and> calls (snd (create_schema_main env drv a s0))
                = calls s0 @ [Connect (arg_type a) (get_configuration (environ env) a)])
     \<and> (\<forall>e. raises drv (calls s0) (Connect (arg_type b) (get_configuration (environ env) b)) = Some e \<longrightarrow>
            fst (read_database_main env drv b s0) = Some (SystemExit 1)
            \<and> calls (snd (read_database_main env drv b s0))
                = calls s0 @ [Connect (arg_type b) (get_configuration (environ env) b)])"
proof -
  let ?s = "s0\<lparr>connection := None, cursor := None\<rparr>"
  have c1: "snd (create_schema_main env drv a s0) = snd (close drv (create_left env drv a s0))"
    using assms(1,2)
    by (simp add: create_schema_main_def create_left_def try_finally_snd Let_def)
  have r1: "snd (read_database_main env drv b s0) = snd (close drv (read_left env drv b s0))"
    using assms(3)
    by (simp add: read_database_main_def read_left_def try_finally_snd Let_def)
  have c2: "(\<exists>new. calls (create_left env drv a s0) = calls s0 @ new \<and> quiet new)
      \<and> (cursor (create_left env drv a s0) \<noteq> None \<longrightarrow> connection (create_left env drv a s0) \<noteq> None)"
    unfolding create_left_def create_body_def
    using body_left [of ?s "create_operation env drv a" "arg_type a" drv
        "get_configuration (environ env) a"] carries_on_create_operation
    by simp
  have r2: "(\<exists>new. calls (read_left env drv b s0) = calls s0 @ new \<and> quiet new)
      \<and> (cursor (read_left env drv b s0) \<noteq> None \<longrightarrow> connection (read_left env drv b s0) \<noteq> None)"
    unfolding read_left_def read_body_def
    using body_left [of ?s "read_operation drv (get_configuration (environ env) b) b" "arg_type b" drv
        "get_configuration (environ env) b"] carries_on_read_operation
    by simp
  have cl: "\<forall>s. calls (snd (close drv s)) =
               calls s @ (if cursor s \<noteq> None then [CloseCursor] else [])
                       @ (if connection s \<noteq> None
                             \<and> (cursor s = None \<or> raises drv (calls s) CloseCursor = None)
                          then [CloseConnection] else [])
            \<and> (cursor s = None \<and> connection s = None \<longrightarrow> close drv s = (None, s))"
    using close_calls close_unset by blast
  have c3: "fst (create_schema_main env drv a s0) = Some (SystemExit 1)
            \<and> calls (snd (create_schema_main env drv a s0))
                = calls s0 @ [Connect (arg_type a) (get_configuration (environ env) a)]"
    if "raises drv (calls s0) (Connect (arg_type a) (get_configuration (environ env) a)) = Some e" for e
    using that assms(1,2)
    by (simp add: create_schema_main_def Let_def try_finally_def create_body_def and_then_def
        connect_raises close_def log_error_def)
  have r3: "fst (read_database_main env drv b s0) = Some (SystemExit 1)
            \<and> calls (snd (read_database_main env drv b s0))
                = calls s0 @ [Connect (arg_type b) (get_configuration (environ env) b)]"
    if "raises drv (calls s0) (Connect (arg_type b) (get_configuration (environ env) b)) = Some e" for e
    using that assms(3)
    by (simp add: read_database_main_def Let_def try_finally_def read_body_def and_then_def
        connect_raises close_def log_error_def)
  from c1 r1 c2 r2 cl c3 r3 show ?thesis by blast
qed

theorem main_closes_on_every_exit_witness:
  "calls (snd (create_schema_main bare obliging (only_type Postgres) fresh))
     = [Connect Postgres default_postgres, OpenCursor, CloseCursor, CloseConnection]
   \<and> calls (snd (read_database_main bare obliging (list_tables_of MySQL) fresh))
     = [Connect MySQL default_mysql, OpenCursor, Execute ''SHOW TABLES;'', Commit,
        CloseCursor, CloseConnection]"
proof -
  have h1: "available bare (arg_type (only_type Postgres))"
    and h2: "\<not> arg_generate_example (only_type Postgres)"
    and h3: "available bare (arg_type (list_tables_of MySQL))"
    by (simp_all add: bare_def only_type_def)
  note t = main_closes_on_every_exit [OF h1 h2 h3, of obliging fresh]
  have sel: "\<not> is_select ''SHOW TABLES;''"
    by (simp add: is_select_def startswith_def upper_def upper_char_def
        strip_def lstrip_def rstrip_def isspace_def)
  have l1: "calls (create_left bare obliging (only_type Postgres) fresh)
              = [Connect Postgres default_postgres, OpenCursor]"
    "cursor (create_left bare obliging (only_type Postgres) fresh) = Some Handle"
    "connection (create_left bare obliging (only_type Postgres) fresh) = Some Handle"
    by (simp_all add: create_left_def create_body_def and_then_def connect_def invoke_def
        get_configuration_def DEFAULT_CONFIG_def getenv_def override_def bare_def
        default_postgres_def
        create_operation_def given_def only_type_def obliging_def fresh_def log_info_def
        log_error_def)
  have l2: "calls (read_left bare obliging (list_tables_of MySQL) fresh)
              = [Connect MySQL default_mysql, OpenCursor, Execute ''SHOW TABLES;'', Commit]"
    "cursor (read_left bare obliging (list_tables_of MySQL) fresh) = Some Handle"
    "connection (read_left bare obliging (list_tables_of MySQL) fresh) = Some Handle"
    by (simp_all add: read_left_def read_body_def and_then_def connect_def invoke_def
        get_configuration_def DEFAULT_CONFIG_def getenv_def override_def bare_def
        default_mysql_def
        read_operation_def list_tables_def MySQLReader_execute_query_def sel
        list_tables_of_def obliging_def fresh_def log_info_def log_warn_def log_error_def)
  have q: "raises obliging cs CloseCursor = None" for cs by (simp add: obliging_def)
  from t have m1: "snd (create_schema_main bare obliging (only_type Postgres) fresh)
                     = snd (close obliging (create_left bare obliging (only_type Postgres) fresh))"
    and m2: "snd (read_database_main bare obliging (list_tables_of MySQL) fresh)
                     = snd (close obliging (read_left bare obliging (list_tables_of MySQL) fresh))"
    and cl: "\<And>s. calls (snd (close obliging s)) =
               calls s @ (if cursor s \<noteq> None then [CloseCursor] else [])
                       @ (if connection s \<noteq> None
                             \<and> (cursor s = None \<or> raises obliging (calls s) CloseCursor = None)
                          then [CloseConnection] else [])"
    by blast+
  show ?thesis
    by (simp add: m1 m2 cl q l1 l2)
qed

text \<open>
  Claim C9: the release of the connection is not guaranteed on every exit path. \<^verbatim>\<open>close\<close>
  calls \<^verbatim>\<open>cursor.close()\<close> and then \<^verbatim>\<open>connection.close()\<close> with nothing guarding the
  first call, so when closing the cursor raises, the connection that was opened is never
  closed. The run below is \<^verbatim>\<open>read_database.py --type mysql --list-tables\<close> on a
  driver whose cursor refuses to close: the connection is opened, the last call made is
  \<^verbatim>\<open>cursor.close()\<close>, \<^verbatim>\<open>connection.close()\<close> is never called, the connection is
  still held, and the exception of \<^verbatim>\<open>cursor.close()\<close> ends the run.
\<close>

theorem close_leaks_connection_when_cursor_close_raises:
  "calls (snd (read_database_main bare (fails_on CloseCursor ''Unread result found'')
                 (list_tables_of MySQL) fresh))
     = [Connect MySQL default_mysql, OpenCursor, Execute ''SHOW TABLES;'', Commit, CloseCursor]
   \<and> connection (snd (read_database_main bare (fails_on CloseCursor ''Unread result found'')
                 (list_tables_of MySQL) fresh))
     = Some Handle
   \<and> count_call CloseConnection
        (calls (snd (read_database_main bare (fails_on CloseCursor ''Unread result found'')
                 (list_tables_of MySQL) fresh)))
     = 0
   \<and> fst (read_database_main bare (fails_on CloseCursor ''Unread result found'')
                 (list_tables_of MySQL) fresh)
     = Some (Exception ''Unread result found'')"
proof -
  let ?run = "read_database_main bare (fails_on CloseCursor ''Unread result found'')
                 (list_tables_of MySQL) fresh"
  have sel: "\<not> is_select ''SHOW TABLES;''"
    by (simp add: is_select_def startswith_def upper_def upper_char_def
        strip_def lstrip_def rstrip_def isspace_def)
  have cfg: "get_configuration (environ bare) (list_tables_of MySQL) = default_mysql"
    by (simp add: get_configuration_def DEFAULT_CONFIG_def getenv_def override_def bare_def
        list_tables_of_def default_mysql_def)
  have av: "available bare MySQL" "arg_type (list_tables_of MySQL) = MySQL"
    "arg_list_tables (list_tables_of MySQL)"
    by (simp_all add: bare_def list_tables_of_def)
  have run: "calls (snd ?run)
     = [Connect MySQL default_mysql, OpenCursor, Execute ''SHOW TABLES;'', Commit, CloseCursor]
   \<and> connection (snd ?run) = Some Handle
   \<and> fst ?run = Some (Exception ''Unread result found'')"
    by (simp add: read_database_main_def Let_def cfg av try_finally_def read_body_def and_then_def
        connect_def invoke_def read_operation_def list_tables_def MySQLReader_execute_query_def
        sel close_def fails_on_def fresh_def log_info_def log_warn_def log_error_def emit_def)
  then have "count_call CloseConnection (calls (snd ?run)) = 0"
    by (simp add: count_call_def)
  with run show ?thesis by simp
qed

end
